theory Spec2Isabelle
  imports Main "HOL-Library.Word"
begin

unbundle bit_operations_syntax

section \<open>Data model\<close>

text \<open>
  The image pipeline of \<^verbatim>\<open>src/image.cpp\<close> and the thermal table of
  \<^verbatim>\<open>src/algo/thermal-loop/l500-thermal-loop.h\<close>.

  Conventions of the embedding.
  \<^item> The fixed-width unsigned types are words; a conversion to one of them truncates
    (\<open>word_of_int\<close>).
  \<^item> A C \<^verbatim>\<open>int\<close> is a HOL \<open>int\<close>. Where a claim is about the value of an \<^verbatim>\<open>int\<close>
    product (\<open>get_image_size\<close>), the product is reduced to the 32 bits of an
    \<^verbatim>\<open>int\<close>, in two's complement (\<open>int_wrap\<close>).
  \<^item> A failed \<^verbatim>\<open>assert\<close> is a result \<open>Inl e\<close>: the function stops there.
  \<^item> A pointer into a caller's buffer is the buffer, a function from element index to
    element, read through \<^verbatim>\<open>reinterpret_cast\<close> where the source does so. Input and
    output buffers are distinct objects (no aliasing).
  \<^item> A \<^verbatim>\<open>for\<close> loop over an \<^verbatim>\<open>int\<close> counter is the recursion \<open>for_loop\<close>.
\<close>

type_synonym uint8_t = "8 word"
type_synonym uint16_t = "16 word"
type_synonym uint32_t = "32 word"
type_synonym size_t = "64 word"

text \<open>
  Modelled from the spec: the enumeration \<^verbatim>\<open>rs_format\<close> is declared in a header that is
  not part of the sources; its closed set is the eight formats the spec lists, which are
  the eight that \<^verbatim>\<open>image.cpp\<close> names.
\<close>

datatype rs_format =
    RS_FORMAT_Z16 | RS_FORMAT_YUYV | RS_FORMAT_RGB8 | RS_FORMAT_BGR8
  | RS_FORMAT_RGBA8 | RS_FORMAT_BGRA8 | RS_FORMAT_Y8 | RS_FORMAT_Y16

text \<open>
  The ways a call stops early. The source signals the first three with \<^verbatim>\<open>assert\<close>:
  \<^item> \<open>UnsupportedFormat\<close>: \<^verbatim>\<open>assert(false && "unsupported format")\<close> and the
    \<^verbatim>\<open>default: assert(false)\<close> of a switch over the format;
  \<^item> \<open>BadGeometry\<close>: \<^verbatim>\<open>assert(width % macropixel_width == 0)\<close>;
  \<^item> \<open>ContractViolation\<close>: the assertion at the entry of a codec on its mode;
  \<^item> \<open>OutOfBounds\<close>: a read outside the buffer that is read;
  \<^item> \<open>LengthError\<close>: \<^verbatim>\<open>std::vector::resize\<close> with a negative size.
\<close>

datatype error =
    UnsupportedFormat | BadGeometry | ContractViolation
  | OutOfBounds | LengthError

text \<open>
  Modelled from the spec: \<^verbatim>\<open>subdevice_mode\<close> and the mode of one of its output streams are
  declared in a header that is not part of the sources. These are the fields that
  \<^verbatim>\<open>image.cpp\<close> reads, \<^verbatim>\<open>mode.width\<close>, \<^verbatim>\<open>mode.height\<close>, \<^verbatim>\<open>mode.fourcc\<close> and, for each
  element of \<^verbatim>\<open>mode.streams\<close>, \<^verbatim>\<open>width\<close>, \<^verbatim>\<open>height\<close> and \<^verbatim>\<open>format\<close>; the prefixes keep
  the field names of the three records apart.
\<close>

record stream_mode =
  stream_width :: int
  stream_height :: int
  stream_format :: rs_format

record subdevice_mode =
  mode_width :: int
  mode_height :: int
  mode_fourcc :: uint32_t
  mode_streams :: "stream_mode list"

subsection \<open>Loops\<close>

text \<open>\<^verbatim>\<open>for(int i = i0; i < n; ++i) body(i)\<close>, on a state.\<close>

function for_loop :: "int \<Rightarrow> int \<Rightarrow> (int \<Rightarrow> 's \<Rightarrow> 's) \<Rightarrow> 's \<Rightarrow> 's" where
  "for_loop i n body s = (if i < n then for_loop (i + 1) n body (body i s) else s)"
  by pat_completeness auto
termination
  by (relation "measure (\<lambda>(i, n, body, s). nat (n - i))") auto

declare for_loop.simps [simp del]

text \<open>\<^verbatim>\<open>for(int x = x0; x < n; x += 2) body(x)\<close>.\<close>

function for_loop2 :: "int \<Rightarrow> int \<Rightarrow> (int \<Rightarrow> 's \<Rightarrow> 's) \<Rightarrow> 's \<Rightarrow> 's" where
  "for_loop2 x n body s = (if x < n then for_loop2 (x + 2) n body (body x s) else s)"
  by pat_completeness auto
termination
  by (relation "measure (\<lambda>(x, n, body, s). nat (n - x))") auto

declare for_loop2.simps [simp del]

section \<open>Pixel codecs\<close>

subsection \<open>Naive unpacking routines\<close>

text \<open>
  \<^verbatim>\<open>unpack_pixels\<close>: the state of the loops is the read position \<^verbatim>\<open>source\<close> and the
  pixels written through \<^verbatim>\<open>*out++\<close>, in the order they are written.
\<close>

definition unpack_pixels ::
  "subdevice_mode \<Rightarrow> (int \<Rightarrow> 'a) \<Rightarrow> rs_format \<Rightarrow> ('a \<Rightarrow> 'b) \<Rightarrow> error + 'b list" where
  "unpack_pixels m source format unpack =
     (case mode_streams m of
        [s0] \<Rightarrow>
          if stream_width s0 \<le> mode_width m \<and> stream_height s0 \<le> mode_height m
             \<and> stream_format s0 = format
          then Inr (snd (for_loop 0 (stream_height s0)
                 (\<lambda>y (src, out).
                    let (src', out') =
                          for_loop 0 (stream_width s0)
                            (\<lambda>x (src, out). (src + 1, out @ [unpack (source src)])) (src, out)
                    in (src' + (mode_width m - stream_width s0), out'))
                 (0, [])))
          else Inl ContractViolation
      | _ \<Rightarrow> Inl ContractViolation)"

text \<open>
  The two bit-depth expansions. The operands are promoted to \<^verbatim>\<open>int\<close>; the result is
  converted to \<^verbatim>\<open>uint16_t\<close>.
\<close>

definition y16_from_y8_pixel :: "uint8_t \<Rightarrow> uint16_t" where
  "y16_from_y8_pixel pixel = word_of_int (uint pixel OR push_bit 8 (uint pixel))"

definition y16_from_y16_10_pixel :: "uint16_t \<Rightarrow> uint16_t" where
  "y16_from_y16_10_pixel pixel = word_of_int (push_bit 6 (uint pixel))"

definition unpack_y16_from_y8 ::
  "(int \<Rightarrow> uint8_t) \<Rightarrow> subdevice_mode \<Rightarrow> error + uint16_t list" where
  "unpack_y16_from_y8 s m = unpack_pixels m s RS_FORMAT_Y16 y16_from_y8_pixel"

definition unpack_y16_from_y16_10 ::
  "(int \<Rightarrow> uint16_t) \<Rightarrow> subdevice_mode \<Rightarrow> error + uint16_t list" where
  "unpack_y16_from_y16_10 s m = unpack_pixels m s RS_FORMAT_Y16 y16_from_y16_10_pixel"

subsection \<open>YUY2 unpacking routines\<close>

text \<open>
  \<^verbatim>\<open>struct yuy2_macropixel { uint8_t y0,u,y1,v; }\<close>. The fields carry a prefix: a record
  field is a constant, and \<open>u\<close> and \<open>v\<close> are wanted as variables.
\<close>

record yuy2_macropixel =
  mp_y0 :: uint8_t
  mp_u :: uint8_t
  mp_y1 :: uint8_t
  mp_v :: uint8_t

text \<open>The multi-character literal \<^verbatim>\<open>'abcd'\<close>: the four characters, the first one highest.\<close>

definition fourcc_lit :: "char \<Rightarrow> char \<Rightarrow> char \<Rightarrow> char \<Rightarrow> uint32_t" where
  "fourcc_lit a b c d =
     push_bit 24 (of_char a) OR push_bit 16 (of_char b) OR push_bit 8 (of_char c) OR of_char d"

text \<open>
  \<^verbatim>\<open>unpack_from_yuy2\<close>: \<^verbatim>\<open>in\<close> counts macropixels; each step of the inner loop writes two
  pixels and reads one macropixel, and \<^verbatim>\<open>x\<close> advances by two. The bytes are promoted to
  \<^verbatim>\<open>int\<close> before the offsets 16 and 128 are taken off.
\<close>

definition unpack_from_yuy2 ::
  "subdevice_mode \<Rightarrow> (int \<Rightarrow> yuy2_macropixel) \<Rightarrow> rs_format \<Rightarrow> (int \<Rightarrow> int \<Rightarrow> int \<Rightarrow> 'p)
     \<Rightarrow> error + 'p list" where
  "unpack_from_yuy2 m source format unpack =
     (case mode_streams m of
        [s0] \<Rightarrow>
          if mode_fourcc m = fourcc_lit CHR ''Y'' CHR ''U'' CHR ''Y'' CHR ''2''
             \<and> stream_width s0 \<le> mode_width m \<and> stream_height s0 \<le> mode_height m
             \<and> stream_format s0 = format
          then Inr (snd (for_loop 0 (stream_height s0)
                 (\<lambda>y (inp, out).
                    let (inp', out') =
                          for_loop2 0 (stream_width s0)
                            (\<lambda>x (inp, out).
                               (inp + 1,
                                out @ [unpack (uint (mp_y0 (source inp)) - 16)
                                              (uint (mp_u (source inp)) - 128)
                                              (uint (mp_v (source inp)) - 128),
                                       unpack (uint (mp_y1 (source inp)) - 16)
                                              (uint (mp_u (source inp)) - 128)
                                              (uint (mp_v (source inp)) - 128)]))
                            (inp, out)
                    in (inp' + (mode_width m - stream_width s0), out'))
                 (0, [])))
          else Inl ContractViolation
      | _ \<Rightarrow> Inl ContractViolation)"

text \<open>
  \<^verbatim>\<open>>> 8\<close> on a negative \<^verbatim>\<open>int\<close> is the arithmetic shift, \<open>drop_bit\<close> on \<open>int\<close>
  (rounding towards minus infinity).
\<close>

definition clamp_byte :: "int \<Rightarrow> uint8_t" where
  "clamp_byte v = word_of_int (if v < 0 then 0 else if v > 255 then 255 else v)"

definition yuv_to_r :: "int \<Rightarrow> int \<Rightarrow> int \<Rightarrow> uint8_t" where
  "yuv_to_r y u v = clamp_byte (drop_bit 8 (128 + 298 * y + 409 * v))"

definition yuv_to_g :: "int \<Rightarrow> int \<Rightarrow> int \<Rightarrow> uint8_t" where
  "yuv_to_g y u v = clamp_byte (drop_bit 8 (128 + 298 * y - 100 * u - 208 * v))"

definition yuv_to_b :: "int \<Rightarrow> int \<Rightarrow> int \<Rightarrow> uint8_t" where
  "yuv_to_b y u v = clamp_byte (drop_bit 8 (128 + 298 * y + 516 * u))"

text \<open>\<^verbatim>\<open>struct byte3 { uint8_t a,b,c; }\<close>, as a triple.\<close>

type_synonym byte3 = "uint8_t \<times> uint8_t \<times> uint8_t"

definition unpack_rgb_from_yuy2 ::
  "(int \<Rightarrow> yuy2_macropixel) \<Rightarrow> subdevice_mode \<Rightarrow> error + byte3 list" where
  "unpack_rgb_from_yuy2 s m =
     unpack_from_yuy2 m s RS_FORMAT_RGB8
       (\<lambda>y u v. (yuv_to_r y u v, yuv_to_g y u v, yuv_to_b y u v))"

text \<open>
  The formulas as the specification writes them, on the bytes of the macropixel, with
  the shift read as the division by 256 that rounds down and the clamp as \<open>max\<close> and
  \<open>min\<close>.
\<close>

definition bt601_r :: "int \<Rightarrow> int \<Rightarrow> int \<Rightarrow> int" where
  "bt601_r y u v = max 0 (min 255 ((128 + 298 * (y - 16) + 409 * (v - 128)) div 256))"

definition bt601_g :: "int \<Rightarrow> int \<Rightarrow> int \<Rightarrow> int" where
  "bt601_g y u v =
     max 0 (min 255 ((128 + 298 * (y - 16) - 100 * (u - 128) - 208 * (v - 128)) div 256))"

definition bt601_b :: "int \<Rightarrow> int \<Rightarrow> int \<Rightarrow> int" where
  "bt601_b y u v = max 0 (min 255 ((128 + 298 * (y - 16) + 516 * (u - 128)) div 256))"

definition bt601_rgb :: "uint8_t \<Rightarrow> uint8_t \<Rightarrow> uint8_t \<Rightarrow> byte3" where
  "bt601_rgb y u v =
     (word_of_int (bt601_r (uint y) (uint u) (uint v)),
      word_of_int (bt601_g (uint y) (uint u) (uint v)),
      word_of_int (bt601_b (uint y) (uint u) (uint v)))"

text \<open>
  The macropixels one call reads, in reading order: row \<open>y\<close> starts where the pointer
  stands after \<open>y\<close> rows, each of which advances it by the macropixels it read and by
  \<^verbatim>\<open>mode.width - mode.streams[0].width\<close>.
\<close>

definition yuy2_reads :: "subdevice_mode \<Rightarrow> stream_mode \<Rightarrow> int list" where
  "yuy2_reads m s0 =
     concat (map (\<lambda>y. map (\<lambda>k. int y * (int (nat (stream_width s0 + 1) div 2)
                                          + (mode_width m - stream_width s0)) + int k)
                         [0..<nat (stream_width s0 + 1) div 2])
                 [0..<nat (stream_height s0)])"

subsection \<open>2-in-1 format splitting routines\<close>

definition split_frame ::
  "subdevice_mode \<Rightarrow> (int \<Rightarrow> 'a) \<Rightarrow> uint32_t \<Rightarrow> rs_format \<Rightarrow> rs_format \<Rightarrow> ('a \<Rightarrow> 'b) \<Rightarrow> ('a \<Rightarrow> 'c)
     \<Rightarrow> error + ('b list \<times> 'c list)" where
  "split_frame m source fourcc format_a format_b split_a split_b =
     (case mode_streams m of
        [s0, s1] \<Rightarrow>
          if mode_fourcc m = fourcc \<and> stream_format s0 = format_a \<and> stream_format s1 = format_b
             \<and> stream_width s0 = stream_width s1 \<and> stream_height s0 = stream_height s1
             \<and> stream_width s0 \<le> mode_width m \<and> stream_height s0 \<le> mode_height m
          then Inr (snd (for_loop 0 (stream_height s0)
                 (\<lambda>y (src, out).
                    let (src', out') =
                          for_loop 0 (stream_width s0)
                            (\<lambda>x (src, a, b).
                               (src + 1, a @ [split_a (source src)], b @ [split_b (source src)]))
                            (src, out)
                    in (src' + (mode_width m - stream_width s0), out'))
                 (0, [], [])))
          else Inl ContractViolation
      | _ \<Rightarrow> Inl ContractViolation)"

text \<open>
  \<^verbatim>\<open>struct y12i_pixel { uint8_t rl : 8, rh : 4, ll : 4, lh : 8; }\<close>, byte-packed into three
  bytes, with its two member functions. Their operands are promoted to \<^verbatim>\<open>int\<close>.
\<close>

record y12i_pixel =
  rl :: "8 word"
  rh :: "4 word"
  ll :: "4 word"
  lh :: "8 word"

definition y12i_l :: "y12i_pixel \<Rightarrow> int" where
  "y12i_l p = push_bit 4 (uint (lh p)) OR uint (ll p)"

definition y12i_r :: "y12i_pixel \<Rightarrow> int" where
  "y12i_r p = push_bit 8 (uint (rh p)) OR uint (rl p)"

text \<open>
  The bit-fields of three bytes. The layout of a bit-field is the compiler's choice; this
  is the one of the little-endian ABIs (GCC, Clang and MSVC on x86 and ARM): fields are
  allocated in declaration order from the least significant bit of each byte, so \<open>rh\<close>
  is the low half of the second byte and \<open>ll\<close> its high half.
\<close>

definition y12i_of_bytes :: "uint8_t \<Rightarrow> uint8_t \<Rightarrow> uint8_t \<Rightarrow> y12i_pixel" where
  "y12i_of_bytes b0 b1 b2 =
     \<lparr>rl = b0, rh = ucast (take_bit 4 b1), ll = ucast (drop_bit 4 b1), lh = b2\<rparr>"

text \<open>\<^verbatim>\<open>reinterpret_cast<const y12i_pixel *>(source)\<close>: pixel \<open>i\<close> is bytes \<open>3i\<close> to \<open>3i + 2\<close>.\<close>

definition y12i_source :: "(int \<Rightarrow> uint8_t) \<Rightarrow> int \<Rightarrow> y12i_pixel" where
  "y12i_source bytes i = y12i_of_bytes (bytes (3 * i)) (bytes (3 * i + 1)) (bytes (3 * i + 2))"

definition y12i_split_l :: "y12i_pixel \<Rightarrow> uint16_t" where
  "y12i_split_l p = word_of_int (push_bit 6 (y12i_l p) OR drop_bit 4 (y12i_l p))"

definition y12i_split_r :: "y12i_pixel \<Rightarrow> uint16_t" where
  "y12i_split_r p = word_of_int (push_bit 6 (y12i_r p) OR drop_bit 4 (y12i_r p))"

text \<open>
  The expansion as the specification writes it, \<open>(v << 6) | (v >> 4)\<close>, kept to the 16
  bits of the plane it is written to.
\<close>

definition y12i_expand :: "int \<Rightarrow> int" where
  "y12i_expand v = take_bit 16 (push_bit 6 v OR drop_bit 4 v)"

definition unpack_y16_y16_from_y12i_10 ::
  "(int \<Rightarrow> uint8_t) \<Rightarrow> subdevice_mode \<Rightarrow> error + (uint16_t list \<times> uint16_t list)" where
  "unpack_y16_y16_from_y12i_10 source m =
     split_frame m (y12i_source source) (fourcc_lit CHR ''Y'' CHR ''1'' CHR ''2'' CHR ''I'')
       RS_FORMAT_Y16 RS_FORMAT_Y16 y12i_split_l y12i_split_r"

text \<open>
  The pixels one call of \<^verbatim>\<open>unpack_pixels\<close> or \<^verbatim>\<open>split_frame\<close> reads, in reading order:
  each row advances the pointer by the pixels it read and by
  \<^verbatim>\<open>mode.width - mode.streams[0].width\<close>.
\<close>

definition rect_reads :: "subdevice_mode \<Rightarrow> stream_mode \<Rightarrow> int list" where
  "rect_reads m s0 =
     concat (map (\<lambda>y. map (\<lambda>x. int y * (int (nat (stream_width s0))
                                          + (mode_width m - stream_width s0)) + int x)
                         [0..<nat (stream_width s0)])
                 [0..<nat (stream_height s0)])"

section \<open>Image size computation\<close>

text \<open>The division and remainder of C on \<^verbatim>\<open>int\<close>: the quotient is truncated towards zero.\<close>

definition c_div :: "int \<Rightarrow> int \<Rightarrow> int" where
  "c_div a b = sgn a * sgn b * (\<bar>a\<bar> div \<bar>b\<bar>)"

definition c_rem :: "int \<Rightarrow> int \<Rightarrow> int" where
  "c_rem a b = a - b * c_div a b"

text \<open>
  The \<^verbatim>\<open>int\<close> that a product of two \<^verbatim>\<open>int\<close> operands is, for the product \<open>k\<close> of their
  values: the low 32 bits of \<open>k\<close>, read in two's complement. It is \<open>k\<close> itself when \<open>k\<close>
  is in the range of \<^verbatim>\<open>int\<close> (\<open>int_fits\<close>); beyond it the multiplication instruction
  wraps around, and the source has no check.
\<close>

definition int_wrap :: "int \<Rightarrow> int" where
  "int_wrap k = signed_take_bit 31 k"

definition int_fits :: "int \<Rightarrow> bool" where
  "int_fits k \<longleftrightarrow> - (2 ^ 31) \<le> k \<and> k < 2 ^ 31"

text \<open>
  \<^verbatim>\<open>struct format { uint32_t fourcc; int macropixel_width; size_t macropixel_size; }\<close> and
  the table \<^verbatim>\<open>formats\<close>, with the values of its \<^verbatim>\<open>sizeof\<close> expressions (those of the three
  packed structs are the ones their \<^verbatim>\<open>static_assert\<close> fixes).
\<close>

record format =
  format_fourcc :: uint32_t
  macropixel_width :: int
  macropixel_size :: size_t

definition formats :: "format list" where
  "formats =
     [\<lparr>format_fourcc = fourcc_lit CHR ''Y'' CHR ''U'' CHR ''Y'' CHR ''2'',
         macropixel_width = 2, macropixel_size = 4\<rparr>,
      \<lparr>format_fourcc = fourcc_lit CHR ''Z'' CHR ''1'' CHR ''6'' CHR '' '',
         macropixel_width = 1, macropixel_size = 2\<rparr>,
      \<lparr>format_fourcc = fourcc_lit CHR ''Y'' CHR ''8'' CHR '' '' CHR '' '',
         macropixel_width = 1, macropixel_size = 1\<rparr>,
      \<lparr>format_fourcc = fourcc_lit CHR ''Y'' CHR ''1'' CHR ''6'' CHR '' '',
         macropixel_width = 1, macropixel_size = 2\<rparr>,
      \<lparr>format_fourcc = fourcc_lit CHR ''Y'' CHR ''8'' CHR ''I'' CHR '' '',
         macropixel_width = 1, macropixel_size = 1 * 2\<rparr>,
      \<lparr>format_fourcc = fourcc_lit CHR ''Y'' CHR ''1'' CHR ''2'' CHR ''I'',
         macropixel_width = 1, macropixel_size = 3\<rparr>,
      \<lparr>format_fourcc = fourcc_lit CHR ''I'' CHR ''N'' CHR ''V'' CHR ''R'',
         macropixel_width = 1, macropixel_size = 2\<rparr>,
      \<lparr>format_fourcc = fourcc_lit CHR ''I'' CHR ''N'' CHR ''V'' CHR ''Z'',
         macropixel_width = 1, macropixel_size = 2\<rparr>,
      \<lparr>format_fourcc = fourcc_lit CHR ''I'' CHR ''N'' CHR ''V'' CHR ''I'',
         macropixel_width = 1, macropixel_size = 1\<rparr>,
      \<lparr>format_fourcc = fourcc_lit CHR ''I'' CHR ''N'' CHR ''R'' CHR ''I'',
         macropixel_width = 1, macropixel_size = 3\<rparr>,
      \<lparr>format_fourcc = fourcc_lit CHR ''I'' CHR ''N'' CHR ''Z'' CHR ''I'',
         macropixel_width = 2, macropixel_size = 4\<rparr>]"

text \<open>
  \<^verbatim>\<open>get_image_size(int width, int height, uint32_t fourcc)\<close>. The loop over the table
  returns at the first entry with the tag; the product
  \<^verbatim>\<open>(width / f.macropixel_width) * height\<close> is an \<^verbatim>\<open>int\<close>, converted to \<^verbatim>\<open>size_t\<close> (sign
  extended, that is taken modulo \<open>2 ^ 64\<close>) for the product with \<^verbatim>\<open>f.macropixel_size\<close>,
  which wraps at \<open>2 ^ 64\<close>.
\<close>

fun get_image_size_loop :: "format list \<Rightarrow> int \<Rightarrow> int \<Rightarrow> uint32_t \<Rightarrow> error + size_t" where
  "get_image_size_loop [] width height fourcc = Inl UnsupportedFormat"
| "get_image_size_loop (f # fs) width height fourcc =
     (if format_fourcc f \<noteq> fourcc then get_image_size_loop fs width height fourcc
      else if c_rem width (macropixel_width f) \<noteq> 0 then Inl BadGeometry
      else Inr (word_of_int (int_wrap (c_div width (macropixel_width f) * height))
                * macropixel_size f))"

definition get_image_size_fourcc :: "int \<Rightarrow> int \<Rightarrow> uint32_t \<Rightarrow> error + size_t" where
  "get_image_size_fourcc width height fourcc = get_image_size_loop formats width height fourcc"

text \<open>
  The table of section 3 of the specification, as it is written there: the four
  characters of the code, the macropixel width in pixels and the macropixel size in bytes.
\<close>

definition fourcc_table :: "(string \<times> int \<times> int) list" where
  "fourcc_table =
     [(''YUY2'', 2, 4), (''Z16 '', 1, 2), (''Y8  '', 1, 1), (''Y16 '', 1, 2), (''Y8I '', 1, 2),
      (''Y12I'', 1, 3), (''INVR'', 1, 2), (''INVZ'', 1, 2), (''INVI'', 1, 1), (''INRI'', 1, 3),
      (''INZI'', 2, 4)]"

definition fourcc_of :: "string \<Rightarrow> uint32_t" where
  "fourcc_of name = fourcc_lit (name ! 0) (name ! 1) (name ! 2) (name ! 3)"

section \<open>Image alignment\<close>

text \<open>
  Modelled from the spec: \<^verbatim>\<open>rs_intrinsics\<close> and \<^verbatim>\<open>rs_extrinsics\<close> are declared in a header
  that is not part of the sources. \<^verbatim>\<open>image.cpp\<close> reads the \<^verbatim>\<open>width\<close> and \<^verbatim>\<open>height\<close> of the
  intrinsics; the principal point, the focal lengths and the distortion (\<open>intrin_camera\<close>)
  and the extrinsics (a type variable) are only handed on to the projection functions.
\<close>

record 'c rs_intrinsics =
  intrin_width :: int
  intrin_height :: int
  intrin_camera :: 'c

text \<open>
  The floating-point operations of \<^verbatim>\<open>align_images\<close> and of its callers are parameters of
  the model, over a type \<open>'f\<close> of \<^verbatim>\<open>float\<close> values:
  \<^item> \<open>float_to_bool\<close>: the conversion in \<^verbatim>\<open>if(float depth = get_depth(...))\<close>, true for a
    value that is not zero;
  \<^item> \<open>times_u16\<close>: \<^verbatim>\<open>depth_pixels[i] * depth_scale\<close>;
  \<^item> \<open>float_one\<close>: the literal \<^verbatim>\<open>1.0f\<close>;
  \<^item> \<open>rounded_pixel\<close>: the pixel \<^verbatim>\<open>(other_x, other_y)\<close> of a depth pixel and its depth,
    that is \<^verbatim>\<open>rs_deproject_pixel_to_point\<close>, \<^verbatim>\<open>rs_transform_point_to_point\<close>,
    \<^verbatim>\<open>rs_project_point_to_pixel\<close>, \<^verbatim>\<open>std::round\<close> and the conversion to \<^verbatim>\<open>int\<close>.
\<close>

record ('f, 'c, 'e) rsutil =
  float_to_bool :: "'f \<Rightarrow> bool"
  times_u16 :: "uint16_t \<Rightarrow> 'f \<Rightarrow> 'f"
  float_one :: 'f
  rounded_pixel :: "'c rs_intrinsics \<Rightarrow> 'e \<Rightarrow> 'c rs_intrinsics \<Rightarrow> int \<Rightarrow> int \<Rightarrow> 'f \<Rightarrow> int \<times> int"

text \<open>The body of the inner loop of \<^verbatim>\<open>align_images\<close>, for one depth pixel.\<close>

definition align_pixel ::
  "('f, 'c, 'e) rsutil \<Rightarrow> 'c rs_intrinsics \<Rightarrow> 'e \<Rightarrow> 'c rs_intrinsics \<Rightarrow> (int \<Rightarrow> 'f)
     \<Rightarrow> (int \<Rightarrow> int \<Rightarrow> 's \<Rightarrow> 's) \<Rightarrow> int \<Rightarrow> int \<Rightarrow> int \<Rightarrow> 's \<Rightarrow> 's" where
  "align_pixel U depth_intrin depth_to_other other_intrin get_depth transfer_pixel
       depth_x depth_y depth_pixel_index s =
     (let depth = get_depth depth_pixel_index in
      if float_to_bool U depth
      then (let (other_x, other_y) =
                  rounded_pixel U depth_intrin depth_to_other other_intrin depth_x depth_y depth
            in if other_x < 0 \<or> other_y < 0 \<or> other_x \<ge> intrin_width other_intrin
                  \<or> other_y \<ge> intrin_height other_intrin
               then s
               else transfer_pixel depth_pixel_index
                      (other_y * intrin_width other_intrin + other_x) s)
      else s)"

text \<open>
  \<^verbatim>\<open>align_images\<close>: the state of the loops is \<^verbatim>\<open>depth_pixel_index\<close>, which the inner loop
  increments with \<^verbatim>\<open>depth_x\<close> (also after \<^verbatim>\<open>continue\<close>), and the state \<open>s\<close> that the
  callback \<^verbatim>\<open>transfer_pixel\<close> works on.
\<close>

definition align_images ::
  "('f, 'c, 'e) rsutil \<Rightarrow> 'c rs_intrinsics \<Rightarrow> 'e \<Rightarrow> 'c rs_intrinsics \<Rightarrow> (int \<Rightarrow> 'f)
     \<Rightarrow> (int \<Rightarrow> int \<Rightarrow> 's \<Rightarrow> 's) \<Rightarrow> 's \<Rightarrow> 's" where
  "align_images U depth_intrin depth_to_other other_intrin get_depth transfer_pixel s =
     snd (for_loop 0 (intrin_height depth_intrin)
       (\<lambda>depth_y (depth_pixel_index, s).
          for_loop 0 (intrin_width depth_intrin)
            (\<lambda>depth_x (depth_pixel_index, s).
               (depth_pixel_index + 1,
                align_pixel U depth_intrin depth_to_other other_intrin get_depth transfer_pixel
                  depth_x depth_y depth_pixel_index s))
            (depth_pixel_index, s))
       (0, s))"

text \<open>
  The calls of the callback, in the order they are made: \<^verbatim>\<open>align_images\<close> with a callback
  that records its two arguments.
\<close>

definition align_calls ::
  "('f, 'c, 'e) rsutil \<Rightarrow> 'c rs_intrinsics \<Rightarrow> 'e \<Rightarrow> 'c rs_intrinsics \<Rightarrow> (int \<Rightarrow> 'f)
     \<Rightarrow> (int \<times> int) list" where
  "align_calls U depth_intrin depth_to_other other_intrin get_depth =
     align_images U depth_intrin depth_to_other other_intrin get_depth
       (\<lambda>depth_pixel_index other_pixel_index calls.
          calls @ [(depth_pixel_index, other_pixel_index)]) []"

text \<open>
  The transfer that the specification expects of the depth pixel \<open>(x, y)\<close>: none when the
  depth is zero or the rounded projection is outside the other image, else the one pair
  \<open>(y * Wd + x, oy * Wo + ox)\<close>.
\<close>

definition expected_transfer ::
  "('f, 'c, 'e) rsutil \<Rightarrow> 'c rs_intrinsics \<Rightarrow> 'e \<Rightarrow> 'c rs_intrinsics \<Rightarrow> (int \<Rightarrow> 'f)
     \<Rightarrow> int \<Rightarrow> int \<Rightarrow> (int \<times> int) list" where
  "expected_transfer U depth_intrin depth_to_other other_intrin get_depth x y =
     (let depth = get_depth (y * intrin_width depth_intrin + x);
          (ox, oy) = rounded_pixel U depth_intrin depth_to_other other_intrin x y depth
      in if \<not> float_to_bool U depth then []
         else if 0 \<le> ox \<and> ox < intrin_width other_intrin
                 \<and> 0 \<le> oy \<and> oy < intrin_height other_intrin
         then [(y * intrin_width depth_intrin + x, oy * intrin_width other_intrin + ox)]
         else [])"

text \<open>\<^verbatim>\<open>align_depth_to_color\<close>: the output is a buffer of \<^verbatim>\<open>uint16_t\<close>.\<close>

definition align_depth_to_color ::
  "('f, 'c, 'e) rsutil \<Rightarrow> (int \<Rightarrow> uint16_t) \<Rightarrow> (int \<Rightarrow> uint16_t) \<Rightarrow> 'f \<Rightarrow> 'c rs_intrinsics \<Rightarrow> 'e
     \<Rightarrow> 'c rs_intrinsics \<Rightarrow> (int \<Rightarrow> uint16_t)" where
  "align_depth_to_color U depth_aligned_to_color depth_pixels depth_scale depth_intrin
       depth_to_color color_intrin =
     align_images U depth_intrin depth_to_color color_intrin
       (\<lambda>depth_pixel_index. times_u16 U (depth_pixels depth_pixel_index) depth_scale)
       (\<lambda>depth_pixel_index color_pixel_index out_depth.
          out_depth(color_pixel_index := depth_pixels depth_pixel_index))
       depth_aligned_to_color"

text \<open>
  The depth pixels that write to the destination index \<open>j\<close>, in raster order (rows from
  the top, each row from the left): those with a depth that is not zero and a rounded
  projection inside the colour image, at index \<open>j\<close>.
\<close>

definition writers_to ::
  "('f, 'c, 'e) rsutil \<Rightarrow> (int \<Rightarrow> uint16_t) \<Rightarrow> 'f \<Rightarrow> 'c rs_intrinsics \<Rightarrow> 'e \<Rightarrow> 'c rs_intrinsics
     \<Rightarrow> int \<Rightarrow> int list" where
  "writers_to U depth_pixels depth_scale depth_intrin depth_to_color color_intrin j =
     concat (map (\<lambda>y. concat (map (\<lambda>x.
        (let i = int y * intrin_width depth_intrin + int x;
             depth = times_u16 U (depth_pixels i) depth_scale;
             (ox, oy) = rounded_pixel U depth_intrin depth_to_color color_intrin
                          (int x) (int y) depth
         in if float_to_bool U depth
               \<and> 0 \<le> ox \<and> ox < intrin_width color_intrin
               \<and> 0 \<le> oy \<and> oy < intrin_height color_intrin
               \<and> oy * intrin_width color_intrin + ox = j
            then [i] else []))
        [0..<nat (intrin_width depth_intrin)]))
        [0..<nat (intrin_height depth_intrin)])"

text \<open>
  \<^verbatim>\<open>template<int N> struct bytes { char b[N]; }\<close>: element \<open>i\<close> of a buffer of
  \<^verbatim>\<open>bytes<N>\<close> is the bytes \<open>N * i\<close> to \<open>N * i + N - 1\<close> of the buffer. The assignment
  \<^verbatim>\<open>out[d] = in[c]\<close> copies these \<open>N\<close> bytes.
\<close>

definition assign_bytes ::
  "nat \<Rightarrow> (int \<Rightarrow> uint8_t) \<Rightarrow> int \<Rightarrow> (int \<Rightarrow> uint8_t) \<Rightarrow> int \<Rightarrow> (int \<Rightarrow> uint8_t)" where
  "assign_bytes N out d inp c =
     (\<lambda>a. if int N * d \<le> a \<and> a < int N * d + int N then inp (int N * c + (a - int N * d))
          else out a)"

definition align_color_to_depth_bytes ::
  "nat \<Rightarrow> ('f, 'c, 'e) rsutil \<Rightarrow> (int \<Rightarrow> uint8_t) \<Rightarrow> (int \<Rightarrow> uint16_t) \<Rightarrow> 'f \<Rightarrow> 'c rs_intrinsics
     \<Rightarrow> 'e \<Rightarrow> 'c rs_intrinsics \<Rightarrow> (int \<Rightarrow> uint8_t) \<Rightarrow> (int \<Rightarrow> uint8_t)" where
  "align_color_to_depth_bytes N U color_aligned_to_depth depth_pixels depth_scale depth_intrin
       depth_to_color color_intrin color_pixels =
     align_images U depth_intrin depth_to_color color_intrin
       (\<lambda>depth_pixel_index. times_u16 U (depth_pixels depth_pixel_index) depth_scale)
       (\<lambda>depth_pixel_index color_pixel_index out_color.
          assign_bytes N out_color depth_pixel_index color_pixels color_pixel_index)
       color_aligned_to_depth"

definition align_color_to_depth ::
  "('f, 'c, 'e) rsutil \<Rightarrow> (int \<Rightarrow> uint8_t) \<Rightarrow> (int \<Rightarrow> uint16_t) \<Rightarrow> 'f \<Rightarrow> 'c rs_intrinsics \<Rightarrow> 'e
     \<Rightarrow> 'c rs_intrinsics \<Rightarrow> (int \<Rightarrow> uint8_t) \<Rightarrow> rs_format \<Rightarrow> error + (int \<Rightarrow> uint8_t)" where
  "align_color_to_depth U color_aligned_to_depth depth_pixels depth_scale depth_intrin
       depth_to_color color_intrin color_pixels color_format =
     (case color_format of
        RS_FORMAT_Y8 \<Rightarrow>
          Inr (align_color_to_depth_bytes 1 U color_aligned_to_depth depth_pixels depth_scale
                 depth_intrin depth_to_color color_intrin color_pixels)
      | RS_FORMAT_Y16 \<Rightarrow>
          Inr (align_color_to_depth_bytes 2 U color_aligned_to_depth depth_pixels depth_scale
                 depth_intrin depth_to_color color_intrin color_pixels)
      | RS_FORMAT_Z16 \<Rightarrow>
          Inr (align_color_to_depth_bytes 2 U color_aligned_to_depth depth_pixels depth_scale
                 depth_intrin depth_to_color color_intrin color_pixels)
      | RS_FORMAT_RGB8 \<Rightarrow>
          Inr (align_color_to_depth_bytes 3 U color_aligned_to_depth depth_pixels depth_scale
                 depth_intrin depth_to_color color_intrin color_pixels)
      | RS_FORMAT_BGR8 \<Rightarrow>
          Inr (align_color_to_depth_bytes 3 U color_aligned_to_depth depth_pixels depth_scale
                 depth_intrin depth_to_color color_intrin color_pixels)
      | RS_FORMAT_RGBA8 \<Rightarrow>
          Inr (align_color_to_depth_bytes 4 U color_aligned_to_depth depth_pixels depth_scale
                 depth_intrin depth_to_color color_intrin color_pixels)
      | RS_FORMAT_BGRA8 \<Rightarrow>
          Inr (align_color_to_depth_bytes 4 U color_aligned_to_depth depth_pixels depth_scale
                 depth_intrin depth_to_color color_intrin color_pixels)
      | _ \<Rightarrow> Inl UnsupportedFormat)"

section \<open>Image rectification\<close>


text \<open>
  \<^verbatim>\<open>rectify_image_pixels\<close>: the rectified pixels, in the order they are written through
  \<^verbatim>\<open>*rect_pixels++\<close>. The unrectified image is a list of pixels; a read outside it is the
  result \<open>OutOfBounds\<close>, and the loop stops at the first one.
\<close>

fun rectify_image_pixels :: "int list \<Rightarrow> 'p list \<Rightarrow> error + 'p list" where
  "rectify_image_pixels [] unrect_pixels = Inr []"
| "rectify_image_pixels (entry # rectification_table) unrect_pixels =
     (if 0 \<le> entry \<and> entry < int (length unrect_pixels)
      then (case rectify_image_pixels rectification_table unrect_pixels of
              Inl e \<Rightarrow> Inl e
            | Inr rect_pixels \<Rightarrow> Inr (unrect_pixels ! nat entry # rect_pixels))
      else Inl OutOfBounds)"

text \<open>The cast of a byte buffer to \<^verbatim>\<open>bytes<N>\<close>: its pixels of \<open>N\<close> bytes.\<close>

definition bytes_pixels :: "nat \<Rightarrow> uint8_t list \<Rightarrow> uint8_t list list" where
  "bytes_pixels N buf = map (\<lambda>i. take N (drop (N * i) buf)) [0..<length buf div N]"

definition rectify_image ::
  "int list \<Rightarrow> uint8_t list \<Rightarrow> rs_format \<Rightarrow> error + uint8_t list list" where
  "rectify_image rectification_table unrect_pixels format =
     (case format of
        RS_FORMAT_Y8 \<Rightarrow> rectify_image_pixels rectification_table (bytes_pixels 1 unrect_pixels)
      | RS_FORMAT_Y16 \<Rightarrow> rectify_image_pixels rectification_table (bytes_pixels 2 unrect_pixels)
      | RS_FORMAT_Z16 \<Rightarrow> rectify_image_pixels rectification_table (bytes_pixels 2 unrect_pixels)
      | RS_FORMAT_RGB8 \<Rightarrow> rectify_image_pixels rectification_table (bytes_pixels 3 unrect_pixels)
      | RS_FORMAT_BGR8 \<Rightarrow> rectify_image_pixels rectification_table (bytes_pixels 3 unrect_pixels)
      | RS_FORMAT_RGBA8 \<Rightarrow> rectify_image_pixels rectification_table (bytes_pixels 4 unrect_pixels)
      | RS_FORMAT_BGRA8 \<Rightarrow> rectify_image_pixels rectification_table (bytes_pixels 4 unrect_pixels)
      | _ \<Rightarrow> Inl UnsupportedFormat)"

text \<open>The pixel width in bytes of the formats that alignment and rectification accept.\<close>

definition pixel_width :: "rs_format \<Rightarrow> nat option" where
  "pixel_width format =
     (if format = RS_FORMAT_Y8 then Some 1
      else if format = RS_FORMAT_Y16 \<or> format = RS_FORMAT_Z16 then Some 2
      else if format = RS_FORMAT_RGB8 \<or> format = RS_FORMAT_BGR8 then Some 3
      else if format = RS_FORMAT_RGBA8 \<or> format = RS_FORMAT_BGRA8 then Some 4
      else None)"

section \<open>Thermal calibration table\<close>

text \<open>
  A \<^verbatim>\<open>float\<close> is its IEEE-754 binary32 bit pattern: sign, 8 bits of exponent, 23 bits of
  fraction. The comparison \<^verbatim>\<open>!=\<close> of C++ is the negation of the IEEE equality, which
  is decided by the bit patterns: a NaN (exponent all ones, fraction not zero) is equal
  to nothing, the two zeros are equal to each other, and any other two values are equal
  exactly when their bits are.
\<close>

type_synonym float = "32 word"

definition float_is_nan :: "float \<Rightarrow> bool" where
  "float_is_nan f \<longleftrightarrow> take_bit 8 (drop_bit 23 f) = 0xFF \<and> take_bit 23 f \<noteq> 0"

definition float_is_zero :: "float \<Rightarrow> bool" where
  "float_is_zero f \<longleftrightarrow> take_bit 31 f = 0"

definition float_eq :: "float \<Rightarrow> float \<Rightarrow> bool" where
  "float_eq a b \<longleftrightarrow>
     \<not> float_is_nan a \<and> \<not> float_is_nan b \<and> (a = b \<or> (float_is_zero a \<and> float_is_zero b))"

definition float_ne :: "float \<Rightarrow> float \<Rightarrow> bool" where
  "float_ne a b \<longleftrightarrow> \<not> float_eq a b"

text \<open>
  \<^verbatim>\<open>class thermal_calibration_table\<close> with its nested structs. \<^verbatim>\<open>operator==\<close> reads a
  member \<^verbatim>\<open>header\<close> of type \<^verbatim>\<open>header\<close>; the member \<^verbatim>\<open>md\<close> has a type that is declared
  elsewhere and is not compared.
\<close>

record header =
  min_temp :: float
  max_temp :: float
  reference_temp :: float
  valid :: float

record temp_data =
  scale :: float
  sheer :: float
  tx :: float
  ty :: float

record 'm thermal_calibration_table =
  md :: 'm
  header :: header
  vals :: "temp_data list"

text \<open>The loop of \<^verbatim>\<open>operator==\<close>, from index \<open>i\<close> on; it returns at the first difference.\<close>

function vals_equal_from ::
  "'m thermal_calibration_table \<Rightarrow> 'm thermal_calibration_table \<Rightarrow> nat \<Rightarrow> bool" where
  "vals_equal_from lhs rhs i =
     (if i < length (vals rhs)
      then if float_ne (scale (vals lhs ! i)) (scale (vals rhs ! i))
              \<or> float_ne (sheer (vals lhs ! i)) (sheer (vals rhs ! i))
              \<or> float_ne (tx (vals lhs ! i)) (tx (vals rhs ! i))
              \<or> float_ne (ty (vals lhs ! i)) (ty (vals rhs ! i))
           then False
           else vals_equal_from lhs rhs (i + 1)
      else True)"
  by pat_completeness auto
termination
  by (relation "measure (\<lambda>(lhs, rhs, i). length (vals rhs) - i)") auto

declare vals_equal_from.simps [simp del]

definition operator_eq ::
  "'m thermal_calibration_table \<Rightarrow> 'm thermal_calibration_table \<Rightarrow> bool" where
  "operator_eq lhs rhs =
     (if length (vals lhs) \<noteq> length (vals rhs) then False
      else if float_ne (max_temp (header lhs)) (max_temp (header rhs))
              \<or> float_ne (min_temp (header lhs)) (min_temp (header rhs))
              \<or> float_ne (reference_temp (header lhs)) (reference_temp (header rhs))
              \<or> float_ne (valid (header lhs)) (valid (header rhs))
           then False
      else vals_equal_from lhs rhs 0)"

text \<open>A field whose IEEE equality is the equality of its bits: not a NaN, not \<open>-0.0\<close>.\<close>

definition float_plain :: "float \<Rightarrow> bool" where
  "float_plain f \<longleftrightarrow> \<not> float_is_nan f \<and> f \<noteq> 0x80000000"

definition header_plain :: "header \<Rightarrow> bool" where
  "header_plain h \<longleftrightarrow>
     float_plain (min_temp h) \<and> float_plain (max_temp h) \<and> float_plain (reference_temp h)
     \<and> float_plain (valid h)"

definition temp_data_plain :: "temp_data \<Rightarrow> bool" where
  "temp_data_plain d \<longleftrightarrow>
     float_plain (scale d) \<and> float_plain (sheer d) \<and> float_plain (tx d) \<and> float_plain (ty d)"

definition table_plain :: "'m thermal_calibration_table \<Rightarrow> bool" where
  "table_plain t \<longleftrightarrow> header_plain (header t) \<and> list_all temp_data_plain (vals t)"

text \<open>Entry \<open>j\<close> of two tables is equal field by field, in the IEEE sense.\<close>

definition same_at ::
  "'m thermal_calibration_table \<Rightarrow> 'm thermal_calibration_table \<Rightarrow> nat \<Rightarrow> bool" where
  "same_at lhs rhs j \<longleftrightarrow>
     float_eq (scale (vals lhs ! j)) (scale (vals rhs ! j))
     \<and> float_eq (sheer (vals lhs ! j)) (sheer (vals rhs ! j))
     \<and> float_eq (tx (vals lhs ! j)) (tx (vals rhs ! j))
     \<and> float_eq (ty (vals lhs ! j)) (ty (vals rhs ! j))"

section \<open>Concrete inputs\<close>

subsection \<open>Test frames\<close>

text \<open>A YUY2 frame of one macropixel, decoded to RGB8: the scenario of the specification.\<close>

definition yuy2_1x2 :: subdevice_mode where
  "yuy2_1x2 = \<lparr>mode_width = 2, mode_height = 1,
     mode_fourcc = fourcc_lit CHR ''Y'' CHR ''U'' CHR ''Y'' CHR ''2'',
     mode_streams = [\<lparr>stream_width = 2, stream_height = 1, stream_format = RS_FORMAT_RGB8\<rparr>]\<rparr>"

text \<open>One sample of 16-bit luma, and one Y12I pixel split into two Y16 planes.\<close>

definition y16_1x1 :: subdevice_mode where
  "y16_1x1 = \<lparr>mode_width = 1, mode_height = 1,
     mode_fourcc = fourcc_lit CHR ''Y'' CHR ''1'' CHR ''6'' CHR '' '',
     mode_streams = [\<lparr>stream_width = 1, stream_height = 1, stream_format = RS_FORMAT_Y16\<rparr>]\<rparr>"

definition y12i_1x1 :: subdevice_mode where
  "y12i_1x1 = \<lparr>mode_width = 1, mode_height = 1,
     mode_fourcc = fourcc_lit CHR ''Y'' CHR ''1'' CHR ''2'' CHR ''I'',
     mode_streams = [\<lparr>stream_width = 1, stream_height = 1, stream_format = RS_FORMAT_Y16\<rparr>,
                     \<lparr>stream_width = 1, stream_height = 1, stream_format = RS_FORMAT_Y16\<rparr>]\<rparr>"

text \<open>The three bytes \<^verbatim>\<open>0xFF 0xF0 0xFF\<close>.\<close>

definition y12i_scenario :: "int \<Rightarrow> uint8_t" where
  "y12i_scenario i = (if i = 0 then 0xFF else if i = 1 then 0xF0 else 0xFF)"

subsection \<open>Test tables\<close>

text \<open>
  Thermal tables of 29 entries: all fields \<open>+0.0\<close> but \<open>min_temp\<close>, which is a quiet NaN
  in the first, \<open>+0.0\<close> in the second and \<open>-0.0\<close> in the third.
\<close>

definition table_with_min_temp :: "float \<Rightarrow> unit thermal_calibration_table" where
  "table_with_min_temp f =
     \<lparr>md = (),
      header = \<lparr>min_temp = f, max_temp = 0, reference_temp = 0, valid = 0\<rparr>,
      vals = replicate 29 \<lparr>scale = 0, sheer = 0, tx = 0, ty = 0\<rparr>\<rparr>"

definition nan_table :: "unit thermal_calibration_table" where
  "nan_table = table_with_min_temp 0x7FC00000"

definition zero_table :: "unit thermal_calibration_table" where
  "zero_table = table_with_min_temp 0"

definition neg_zero_table :: "unit thermal_calibration_table" where
  "neg_zero_table = table_with_min_temp 0x80000000"

subsection \<open>Test cameras\<close>

text \<open>
  A stand-in for the floating-point operations, on integers: a depth is the product of the
  raw value and the scale, it counts as data when it is not 0, and the rounded pixel of
  the depth pixel \<open>(x, y)\<close> is \<open>p x y\<close>, whatever the depth. With \<open>p x y = (x, y)\<close> this is
  the alignment of two cameras with the same intrinsics and the identity between them.
\<close>

definition toy_rsutil :: "(int \<Rightarrow> int \<Rightarrow> int \<times> int) \<Rightarrow> (int, unit, unit) rsutil" where
  "toy_rsutil p =
     \<lparr>float_to_bool = (\<lambda>f. f \<noteq> 0), times_u16 = (\<lambda>d s. uint d * s), float_one = 1,
      rounded_pixel = (\<lambda>_ _ _ x y _. p x y)\<rparr>"

definition image_size :: "int \<Rightarrow> int \<Rightarrow> unit rs_intrinsics" where
  "image_size w h = \<lparr>intrin_width = w, intrin_height = h, intrin_camera = ()\<rparr>"

section \<open>Properties\<close>

subsection \<open>Loops as folds\<close>

lemma for_loop_foldl: "for_loop i n body s = foldl (\<lambda>s j. body j s) s [i..n - 1]"
proof (induction i n body s rule: for_loop.induct)
  case (1 i n body s)
  show ?case
  proof (cases "i < n")
    case True
    then have "[i..n - 1] = i # [i + 1..n - 1]"
      by (simp add: upto_rec1)
    with True "1" show ?thesis
      by (subst for_loop.simps) simp
  next
    case False
    then show ?thesis
      by (subst for_loop.simps) simp
  qed
qed

lemma upto_as_upt: "[0..n - 1] = map int [0..<nat n]"
proof (induction k \<equiv> "nat n" arbitrary: n)
  case 0
  then show ?case by simp
next
  case (Suc k)
  from Suc.hyps(2) have n: "0 < n" and k: "k = nat (n - 1)"
    by linarith+
  have nat_n: "nat n = Suc (nat (n - 1))"
    using n by linarith
  have "[0..n - 1] = [0..(n - 1) - 1] @ [n - 1]"
    using n by (simp add: upto_rec2)
  also have "[0..(n - 1) - 1] = map int [0..<nat (n - 1)]"
    using Suc.hyps(1) [OF k] .
  finally show ?case
    using n by (simp add: nat_n)
qed

lemma for_loop_upt:
  "for_loop 0 n body s = foldl (\<lambda>s j. body (int j) s) s [0..<nat n]"
  by (simp add: for_loop_foldl upto_as_upt foldl_map)

subsection \<open>What the codec loops read and write\<close>

lemma for_loop2_upt:
  "for_loop2 x n body s =
     foldl (\<lambda>s k. body (x + 2 * int k) s) s [0..<nat (n - x + 1) div 2]"
proof (induction x n body s rule: for_loop2.induct)
  case (1 x n body s)
  show ?case
  proof (cases "x < n")
    case True
    then have cnt: "nat (n - x + 1) div 2 = Suc (nat (n - (x + 2) + 1) div 2)"
      by (simp add: nat_diff_distrib nat_add_distrib)
    have "[0..<Suc (nat (n - (x + 2) + 1) div 2)]
            = 0 # map Suc [0..<nat (n - (x + 2) + 1) div 2]"
      by (simp only: upt_conv_Cons zero_less_Suc map_Suc_upt)
    with True "1" cnt show ?thesis
      by (subst for_loop2.simps) (simp add: foldl_map algebra_simps)
  next
    case False
    then show ?thesis
      by (subst for_loop2.simps) simp
  qed
qed

lemma inner_foldl:
  "foldl (\<lambda>s j. (fst s + 1, snd s @ g (fst s))) s0 [0..<n]
     = (fst s0 + int n, snd s0 @ concat (map (\<lambda>k. g (fst s0 + int k)) [0..<n]))"
  by (induction n) (simp_all add: algebra_simps)

lemma outer_foldl:
  "foldl (\<lambda>s y. (fst s + d, snd s @ row (fst s))) s0 [0..<n]
     = (fst s0 + int n * d, snd s0 @ concat (map (\<lambda>y. row (fst s0 + int y * d)) [0..<n]))"
  by (induction n) (simp_all add: algebra_simps)

lemma unpack_pixels_rows:
  "snd (for_loop 0 h
     (\<lambda>y (src, out).
        let (src', out') = for_loop 0 w (\<lambda>x (src, out). (src + 1, out @ [f (source src)])) (src, out)
        in (src' + d, out'))
     (0, []))
   = concat (map (\<lambda>y. map (\<lambda>x. f (source (int y * (int (nat w) + d) + int x))) [0..<nat w])
                 [0..<nat h])"
proof -
  define n where "n = nat w"
  have inner: "for_loop 0 w (\<lambda>x (src, out). (src + 1, out @ [f (source src)])) s
      = (fst s + int n, snd s @ map (\<lambda>x. f (source (fst s + int x))) [0..<n])" for s
    using inner_foldl [of "\<lambda>src. [f (source src)]" s n]
    by (simp add: for_loop_upt case_prod_beta flip: n_def)
  show ?thesis
    using outer_foldl [of "int n + d"
        "\<lambda>src. map (\<lambda>x. f (source (src + int x))) [0..<n]" "(0, [])" "nat h"]
    by (simp add: for_loop_upt [of h] inner case_prod_beta add.assoc flip: n_def)
qed

lemma unpack_pixels_reads:
  "unpack_pixels m source format unpack =
     (case mode_streams m of
        [s0] \<Rightarrow>
          if stream_width s0 \<le> mode_width m \<and> stream_height s0 \<le> mode_height m
             \<and> stream_format s0 = format
          then Inr (map (\<lambda>i. unpack (source i)) (rect_reads m s0))
          else Inl ContractViolation
      | _ \<Rightarrow> Inl ContractViolation)"
  unfolding unpack_pixels_def unpack_pixels_rows rect_reads_def
  by (auto simp: map_concat comp_def split: list.splits)


lemma inner_foldl2:
  "foldl (\<lambda>s j. (fst s + 1, fst (snd s) @ [ga (fst s)], snd (snd s) @ [gb (fst s)])) s0 [0..<n]
     = (fst s0 + int n,
        fst (snd s0) @ map (\<lambda>k. ga (fst s0 + int k)) [0..<n],
        snd (snd s0) @ map (\<lambda>k. gb (fst s0 + int k)) [0..<n])"
  by (induction n) (simp_all add: algebra_simps)

lemma outer_foldl2:
  "foldl (\<lambda>s y. (fst s + d, fst (snd s) @ rowa (fst s), snd (snd s) @ rowb (fst s))) s0 [0..<n]
     = (fst s0 + int n * d,
        fst (snd s0) @ concat (map (\<lambda>y. rowa (fst s0 + int y * d)) [0..<n]),
        snd (snd s0) @ concat (map (\<lambda>y. rowb (fst s0 + int y * d)) [0..<n]))"
  by (induction n) (simp_all add: algebra_simps)

lemma split_frame_rows:
  "snd (for_loop 0 h
     (\<lambda>y (src, out).
        let (src', out') =
              for_loop 0 w
                (\<lambda>x (src, a, b). (src + 1, a @ [fa (source src)], b @ [fb (source src)]))
                (src, out)
        in (src' + d, out'))
     (0, [], []))
   = (concat (map (\<lambda>y. map (\<lambda>x. fa (source (int y * (int (nat w) + d) + int x))) [0..<nat w])
                 [0..<nat h]),
      concat (map (\<lambda>y. map (\<lambda>x. fb (source (int y * (int (nat w) + d) + int x))) [0..<nat w])
                 [0..<nat h]))"
proof -
  define n where "n = nat w"
  have inner: "for_loop 0 w
        (\<lambda>x (src, a, b). (src + 1, a @ [fa (source src)], b @ [fb (source src)])) s
      = (fst s + int n,
         fst (snd s) @ map (\<lambda>x. fa (source (fst s + int x))) [0..<n],
         snd (snd s) @ map (\<lambda>x. fb (source (fst s + int x))) [0..<n])" for s
    using inner_foldl2 [of "\<lambda>src. fa (source src)" "\<lambda>src. fb (source src)" s n]
    by (simp add: for_loop_upt case_prod_beta flip: n_def)
  show ?thesis
    using outer_foldl2 [of "int n + d"
        "\<lambda>src. map (\<lambda>x. fa (source (src + int x))) [0..<n]"
        "\<lambda>src. map (\<lambda>x. fb (source (src + int x))) [0..<n]" "(0, [], [])" "nat h"]
    by (simp add: for_loop_upt [of h] inner case_prod_beta add.assoc flip: n_def)
qed

lemma split_frame_reads:
  "split_frame m source fourcc format_a format_b split_a split_b =
     (case mode_streams m of
        [s0, s1] \<Rightarrow>
          if mode_fourcc m = fourcc \<and> stream_format s0 = format_a \<and> stream_format s1 = format_b
             \<and> stream_width s0 = stream_width s1 \<and> stream_height s0 = stream_height s1
             \<and> stream_width s0 \<le> mode_width m \<and> stream_height s0 \<le> mode_height m
          then Inr (map (\<lambda>i. split_a (source i)) (rect_reads m s0),
                    map (\<lambda>i. split_b (source i)) (rect_reads m s0))
          else Inl ContractViolation
      | _ \<Rightarrow> Inl ContractViolation)"
  unfolding split_frame_def split_frame_rows rect_reads_def
  by (auto simp: map_concat comp_def split: list.splits)

lemma concat_map_concat:
  "concat (map g (concat xss)) = concat (map (\<lambda>xs. concat (map g xs)) xss)"
  by (induction xss) simp_all

lemma unpack_from_yuy2_rows:
  "snd (for_loop 0 h
     (\<lambda>y (inp, out).
        let (inp', out') = for_loop2 0 w (\<lambda>x (inp, out). (inp + 1, out @ g inp)) (inp, out)
        in (inp' + d, out'))
     (0, []))
   = concat (map g (concat (map (\<lambda>y. map (\<lambda>k. int y * (int (nat (w + 1) div 2) + d) + int k)
                                         [0..<nat (w + 1) div 2])
                 [0..<nat h])))"
proof -
  define n where "n = nat (w + 1) div 2"
  have inner: "for_loop2 0 w (\<lambda>x (inp, out). (inp + 1, out @ g inp)) s
      = (fst s + int n, snd s @ concat (map (\<lambda>k. g (fst s + int k)) [0..<n]))" for s
    using inner_foldl [of g s n]
    by (simp add: for_loop2_upt case_prod_beta flip: n_def)
  show ?thesis
    using outer_foldl [of "int n + d"
        "\<lambda>src. concat (map (\<lambda>k. g (src + int k)) [0..<n])" "(0, [])" "nat h"]
    by (simp add: for_loop_upt [of h] inner case_prod_beta add.assoc concat_map_concat comp_def
        flip: n_def)
qed

lemma unpack_from_yuy2_reads:
  "unpack_from_yuy2 m source format unpack =
     (case mode_streams m of
        [s0] \<Rightarrow>
          if mode_fourcc m = fourcc_lit CHR ''Y'' CHR ''U'' CHR ''Y'' CHR ''2''
             \<and> stream_width s0 \<le> mode_width m \<and> stream_height s0 \<le> mode_height m
             \<and> stream_format s0 = format
          then Inr (concat (map (\<lambda>i.
                 [unpack (uint (mp_y0 (source i)) - 16) (uint (mp_u (source i)) - 128)
                    (uint (mp_v (source i)) - 128),
                  unpack (uint (mp_y1 (source i)) - 16) (uint (mp_u (source i)) - 128)
                    (uint (mp_v (source i)) - 128)]) (yuy2_reads m s0)))
          else Inl ContractViolation
      | _ \<Rightarrow> Inl ContractViolation)"
  unfolding unpack_from_yuy2_def unpack_from_yuy2_rows yuy2_reads_def
  by (auto split: list.splits)


subsection \<open>YUY2 to RGB8\<close>

lemma clamp_byte_max_min: "clamp_byte k = word_of_int (max 0 (min 255 k))"
  by (simp add: clamp_byte_def max_def min_def)

lemma yuv_to_rgb_bt601:
  "(yuv_to_r (uint y - 16) (uint u - 128) (uint v - 128),
    yuv_to_g (uint y - 16) (uint u - 128) (uint v - 128),
    yuv_to_b (uint y - 16) (uint u - 128) (uint v - 128)) = bt601_rgb y u v"
  by (simp only: yuv_to_r_def yuv_to_g_def yuv_to_b_def bt601_rgb_def bt601_r_def bt601_g_def
      bt601_b_def clamp_byte_max_min drop_bit_eq_div) simp

lemma yuy2_reads_1x2: "yuy2_reads yuy2_1x2 (hd (mode_streams yuy2_1x2)) = [0]"
  by (simp add: yuy2_reads_def yuy2_1x2_def)

text \<open>
  Claim C3. On a mode that passes its entry assertion, the YUY2 to RGB8 codec writes, for
  every macropixel \<open>{y0, u, y1, v}\<close> it reads and in reading order, two pixels: the
  BT.601 fixed-point triple of \<open>(y0, u, v)\<close> and then that of \<open>(y1, u, v)\<close>, where
  \<open>r = clamp((128 + 298 (y - 16) + 409 (v - 128)) >> 8, 0, 255)\<close>, and \<open>g\<close> and \<open>b\<close>
  likewise. The bytes \<open>{81, 90, 81, 240}\<close> decode to \<open>{255, 0, 0}\<close> twice, exactly.
\<close>

theorem yuy2_to_rgb8_bt601:
  "unpack_rgb_from_yuy2 source m =
     (case mode_streams m of
        [s0] \<Rightarrow>
          if mode_fourcc m = fourcc_lit CHR ''Y'' CHR ''U'' CHR ''Y'' CHR ''2''
             \<and> stream_width s0 \<le> mode_width m \<and> stream_height s0 \<le> mode_height m
             \<and> stream_format s0 = RS_FORMAT_RGB8
          then Inr (concat (map (\<lambda>i.
                 [bt601_rgb (mp_y0 (source i)) (mp_u (source i)) (mp_v (source i)),
                  bt601_rgb (mp_y1 (source i)) (mp_u (source i)) (mp_v (source i))])
                 (yuy2_reads m s0)))
          else Inl ContractViolation
      | _ \<Rightarrow> Inl ContractViolation)
   \<and> bt601_rgb 81 90 240 = (255, 0, 0)"
proof
  show "bt601_rgb 81 90 240 = (255, 0, 0)"
    by (simp add: bt601_rgb_def bt601_r_def bt601_g_def bt601_b_def)
qed (simp only: unpack_rgb_from_yuy2_def unpack_from_yuy2_reads yuv_to_rgb_bt601)

theorem yuy2_to_rgb8_bt601_witness:
  "unpack_rgb_from_yuy2 (\<lambda>i. \<lparr>mp_y0 = 81, mp_u = 90, mp_y1 = 81, mp_v = 240\<rparr>) yuy2_1x2
     = Inr [(255, 0, 0), (255, 0, 0)]"
  using yuy2_to_rgb8_bt601 [of "\<lambda>i. \<lparr>mp_y0 = 81, mp_u = 90, mp_y1 = 81, mp_v = 240\<rparr>" yuy2_1x2]
    yuy2_reads_1x2
  by (simp add: yuy2_1x2_def)


subsection \<open>Bit-depth expansion\<close>

lemma or_push8: "uint (p::8 word) OR push_bit 8 (uint p) = 257 * uint p"
proof -
  have "uint p + push_bit 8 (uint p) = uint p OR push_bit 8 (uint p)"
    by (rule disjunctive_add) (auto simp: bit_simps dest: bit_imp_le_length)
  then show ?thesis by (simp add: push_bit_eq_mult)
qed

lemma uint_word_of_int_small:
  "0 \<le> k \<Longrightarrow> k < 2 ^ LENGTH('a) \<Longrightarrow> uint (word_of_int k :: 'a::len word) = k"
  by (simp only: uint_word_of_int_eq take_bit_int_eq_self)

lemma uint_y16_from_y8_pixel: "uint (y16_from_y8_pixel p) = 257 * uint p"
proof -
  have "uint p < 256" using uint_lt2p [of p] by simp
  then have "257 * uint p < 2 ^ LENGTH(16)" by simp
  moreover have "0 \<le> 257 * uint p" by simp
  ultimately show ?thesis
    unfolding y16_from_y8_pixel_def or_push8
    by (rule uint_word_of_int_small [rotated])
qed

lemma uint_y16_from_y16_10_pixel:
  assumes "uint p \<le> 1023"
  shows "uint (y16_from_y16_10_pixel p) = 64 * uint p"
proof -
  have "64 * uint p < 2 ^ LENGTH(16)" using assms by simp
  moreover have "0 \<le> 64 * uint p" by simp
  ultimately have "uint (word_of_int (64 * uint p) :: 16 word) = 64 * uint p"
    by (rule uint_word_of_int_small [rotated])
  moreover have "push_bit 6 (uint p) = 64 * uint p"
    by (simp add: push_bit_eq_mult)
  ultimately show ?thesis
    unfolding y16_from_y16_10_pixel_def by (simp only:)
qed

lemma rect_reads_1x1 [simp]:
  "rect_reads y16_1x1 (hd (mode_streams y16_1x1)) = [0]"
  "rect_reads y12i_1x1 (hd (mode_streams y12i_1x1)) = [0]"
  by (simp_all add: rect_reads_def y16_1x1_def y12i_1x1_def)

text \<open>
  Claim C6, refuted as stated: the 10-bit to 16-bit codec shifts by six and leaves the
  low bits zero, so the full-scale input 1023 becomes 65472 (\<open>0xFFC0\<close>), not 65535.
\<close>

theorem y16_10_full_scale_counterexample:
  "unpack_y16_from_y16_10 (\<lambda>i. 1023) y16_1x1 = Inr [65472]
   \<and> y16_from_y16_10_pixel 1023 \<noteq> 65535"
  using rect_reads_1x1(1)
  by (simp add: unpack_y16_from_y16_10_def unpack_pixels_reads y16_1x1_def
      y16_from_y16_10_pixel_def)

text \<open>
  Claim C6, amended. Both expansions are strictly increasing and map 0 to 0: the Y8 to Y16
  one on all bytes, with 255 mapped to 65535; the 10-bit to 16-bit one on the inputs up
  to 1023, with 1023 mapped to 65472. Each codec applies its expansion to every sample it
  reads, in reading order.
\<close>

theorem bit_depth_expansion:
  "(p < q \<longrightarrow> y16_from_y8_pixel p < y16_from_y8_pixel q)
   \<and> y16_from_y8_pixel 0 = 0 \<and> y16_from_y8_pixel 255 = 65535
   \<and> (p' < q' \<and> q' \<le> 1023 \<longrightarrow> y16_from_y16_10_pixel p' < y16_from_y16_10_pixel q')
   \<and> y16_from_y16_10_pixel 0 = 0 \<and> y16_from_y16_10_pixel 1023 = 65472
   \<and> unpack_y16_from_y8 s8 m =
       (case mode_streams m of
          [s0] \<Rightarrow>
            if stream_width s0 \<le> mode_width m \<and> stream_height s0 \<le> mode_height m
               \<and> stream_format s0 = RS_FORMAT_Y16
            then Inr (map (\<lambda>i. y16_from_y8_pixel (s8 i)) (rect_reads m s0))
            else Inl ContractViolation
        | _ \<Rightarrow> Inl ContractViolation)
   \<and> unpack_y16_from_y16_10 s16 m =
       (case mode_streams m of
          [s0] \<Rightarrow>
            if stream_width s0 \<le> mode_width m \<and> stream_height s0 \<le> mode_height m
               \<and> stream_format s0 = RS_FORMAT_Y16
            then Inr (map (\<lambda>i. y16_from_y16_10_pixel (s16 i)) (rect_reads m s0))
            else Inl ContractViolation
        | _ \<Rightarrow> Inl ContractViolation)"
proof (intro conjI impI)
  assume "p < q"
  then show "y16_from_y8_pixel p < y16_from_y8_pixel q"
    by (simp add: word_less_def uint_y16_from_y8_pixel)
next
  assume a: "p' < q' \<and> q' \<le> 1023"
  then have "uint q' \<le> 1023" "uint p' \<le> 1023" "uint p' < uint q'"
    by (simp_all add: word_less_def word_le_def)
  then show "y16_from_y16_10_pixel p' < y16_from_y16_10_pixel q'"
    by (simp add: word_less_def uint_y16_from_y16_10_pixel)
qed (simp_all add: y16_from_y8_pixel_def y16_from_y16_10_pixel_def unpack_y16_from_y8_def
    unpack_y16_from_y16_10_def unpack_pixels_reads)

theorem bit_depth_expansion_witness:
  "(0 :: uint8_t) < 255 \<and> y16_from_y8_pixel 0 < y16_from_y8_pixel 255
   \<and> (0 :: uint16_t) < 1023 \<and> y16_from_y16_10_pixel 0 < y16_from_y16_10_pixel 1023"
  using bit_depth_expansion [of 0 255 0 1023] by simp

subsection \<open>The Y12I split\<close>

lemma hi_nibble: "uint (ucast (drop_bit 4 (b::8 word)) :: 4 word) = uint b div 16"
proof -
  have "uint b < 256" using uint_lt2p [of b] by simp
  then have "uint b div 16 < 16" by simp
  moreover have "0 \<le> uint b div 16"
    by (simp add: pos_imp_zdiv_nonneg_iff)
  ultimately have "uint b div 16 mod 16 = uint b div 16"
    by (rule mod_pos_pos_trivial [rotated])
  then show ?thesis
    by (simp add: unsigned_ucast_eq drop_bit_eq_div take_bit_eq_mod uint_div)
qed

lemma lo_nibble: "uint (ucast (take_bit 4 (b::8 word)) :: 4 word) = uint b mod 16"
  by (simp add: unsigned_ucast_eq take_bit_eq_mod uint_mod)

lemma or_is_add_hi: "0 \<le> b \<Longrightarrow> b < 2 ^ n \<Longrightarrow> push_bit n (a::int) OR b = a * 2 ^ n + b"
proof -
  assume b: "0 \<le> b" "b < 2 ^ n"
  have "push_bit n a + b = push_bit n a OR b"
  proof (rule disjunctive_add)
    fix k
    show "\<not> bit (push_bit n a) k \<or> \<not> bit b k"
    proof (cases "k < n")
      case True then show ?thesis by (simp add: bit_push_bit_iff)
    next
      case False
      then have "2 ^ n \<le> (2::int) ^ k" by (simp add: power_increasing)
      with b have "b < 2 ^ k" by linarith
      with b(1) have "\<not> bit b k"
        by (metis bit_take_bit_iff less_irrefl take_bit_int_eq_self)
      then show ?thesis by simp
    qed
  qed
  then show ?thesis by (simp add: push_bit_eq_mult)
qed

lemma y12i_l_bytes: "y12i_l (y12i_of_bytes b0 b1 b2) = uint b2 * 16 + uint b1 div 16"
proof -
  have "uint b1 < 256" using uint_lt2p [of b1] by simp
  then have "uint b1 div 16 < 2 ^ 4" by simp
  then have "push_bit 4 (uint b2) OR uint b1 div 16 = uint b2 * 2 ^ 4 + uint b1 div 16"
    by (intro or_is_add_hi) (simp_all add: pos_imp_zdiv_nonneg_iff)
  then show ?thesis
    by (simp add: y12i_l_def y12i_of_bytes_def hi_nibble)
qed

lemma y12i_r_bytes: "y12i_r (y12i_of_bytes b0 b1 b2) = (uint b1 mod 16) * 256 + uint b0"
proof -
  have "uint b0 < 2 ^ 8" using uint_lt2p [of b0] by simp
  then have "push_bit 8 (uint b1 mod 16) OR uint b0 = (uint b1 mod 16) * 2 ^ 8 + uint b0"
    by (intro or_is_add_hi) simp_all
  then show ?thesis
    by (simp add: y12i_r_def y12i_of_bytes_def lo_nibble)
qed

lemma y12i_scn: "y12i_source y12i_scenario 0 = \<lparr>rl = 0xFF, rh = 0, ll = 0xF, lh = 0xFF\<rparr>"
  by (simp add: y12i_source_def y12i_scenario_def y12i_of_bytes_def)

text \<open>
  Claim C4, refuted as stated. The bytes \<^verbatim>\<open>0xFF 0xF0 0xFF\<close> hold \<open>rh = 0\<close> and \<open>ll = 0xF\<close>,
  and the codec writes \<open>0xFFFF\<close> to plane 0 and \<open>0x3FCF\<close> to plane 1, not \<open>0xFFFF\<close> to
  both. With the field values the claim reads off these bytes (\<open>rh = 0xF\<close>, \<open>ll = 0\<close>)
  the left value \<open>0xFF0\<close> expands to \<open>0xFCFF\<close>, again not \<open>0xFFFF\<close>: whatever the layout
  of the bit-fields, one of the two planes does not receive \<open>0xFFFF\<close>.
\<close>

theorem y12i_scenario_counterexample:
  "unpack_y16_y16_from_y12i_10 y12i_scenario y12i_1x1 = Inr ([0xFFFF], [0x3FCF])
   \<and> y12i_split_l \<lparr>rl = 0xFF, rh = 0xF, ll = 0, lh = 0xFF\<rparr> = 0xFCFF"
  using rect_reads_1x1(2)
  by (simp add: unpack_y16_y16_from_y12i_10_def split_frame_reads y12i_1x1_def y12i_scn
      y12i_split_l_def y12i_split_r_def y12i_l_def y12i_r_def)


lemma uint_y12i_split:
  "uint (y12i_split_l p) = y12i_expand (y12i_l p)"
  "uint (y12i_split_r p) = y12i_expand (y12i_r p)"
  by (simp_all only: y12i_split_l_def y12i_split_r_def y12i_expand_def uint_word_of_int_eq
      len_of_numeral_defs) simp_all

text \<open>
  Claim C4, amended. On a mode that passes its entry assertion, the codec writes for every
  3-byte pixel it reads \<open>y12i_split_l\<close> to plane 0 and \<open>y12i_split_r\<close> to plane 1, where
  the fields are taken in declaration order from the least significant bit of the
  little-endian bytes, \<open>l = (lh << 4) | ll\<close> and \<open>r = (rh << 8) | rl\<close> are 12-bit values,
  and each plane receives the low 16 bits of \<open>(v << 6) | (v >> 4)\<close>. The bytes
  \<^verbatim>\<open>0xFF 0xF0 0xFF\<close> give \<open>l = 0xFFF\<close> and \<open>r = 0x0FF\<close>, written as \<open>0xFFFF\<close> and
  \<open>0x3FCF\<close>; the field values \<open>{rl = 0xFF, rh = 0xF, ll = 0, lh = 0xFF}\<close> give
  \<open>l = 0xFF0\<close> and \<open>r = 0xFFF\<close>, written as \<open>0xFCFF\<close> and \<open>0xFFFF\<close>; the full-scale
  10-bit value \<open>0x3FF\<close> expands to \<open>0xFFFF\<close>.
\<close>

theorem y12i_split:
  "unpack_y16_y16_from_y12i_10 source m =
     (case mode_streams m of
        [s0, s1] \<Rightarrow>
          if mode_fourcc m = fourcc_lit CHR ''Y'' CHR ''1'' CHR ''2'' CHR ''I''
             \<and> stream_format s0 = RS_FORMAT_Y16 \<and> stream_format s1 = RS_FORMAT_Y16
             \<and> stream_width s0 = stream_width s1 \<and> stream_height s0 = stream_height s1
             \<and> stream_width s0 \<le> mode_width m \<and> stream_height s0 \<le> mode_height m
          then Inr (map (\<lambda>i. y12i_split_l (y12i_source source i)) (rect_reads m s0),
                    map (\<lambda>i. y12i_split_r (y12i_source source i)) (rect_reads m s0))
          else Inl ContractViolation
      | _ \<Rightarrow> Inl ContractViolation)
   \<and> uint (y12i_split_l (y12i_of_bytes b0 b1 b2)) = y12i_expand (uint b2 * 16 + uint b1 div 16)
   \<and> uint (y12i_split_r (y12i_of_bytes b0 b1 b2)) = y12i_expand ((uint b1 mod 16) * 256 + uint b0)
   \<and> y12i_l (y12i_of_bytes 0xFF 0xF0 0xFF) = 0xFFF
   \<and> y12i_r (y12i_of_bytes 0xFF 0xF0 0xFF) = 0x0FF
   \<and> y12i_split_l (y12i_of_bytes 0xFF 0xF0 0xFF) = 0xFFFF
   \<and> y12i_split_r (y12i_of_bytes 0xFF 0xF0 0xFF) = 0x3FCF
   \<and> y12i_l \<lparr>rl = 0xFF, rh = 0xF, ll = 0, lh = 0xFF\<rparr> = 0xFF0
   \<and> y12i_r \<lparr>rl = 0xFF, rh = 0xF, ll = 0, lh = 0xFF\<rparr> = 0xFFF
   \<and> y12i_split_l \<lparr>rl = 0xFF, rh = 0xF, ll = 0, lh = 0xFF\<rparr> = 0xFCFF
   \<and> y12i_split_r \<lparr>rl = 0xFF, rh = 0xF, ll = 0, lh = 0xFF\<rparr> = 0xFFFF
   \<and> y12i_expand 0x3FF = 0xFFFF"
proof (intro conjI)
  show "unpack_y16_y16_from_y12i_10 source m =
     (case mode_streams m of
        [s0, s1] \<Rightarrow>
          if mode_fourcc m = fourcc_lit CHR ''Y'' CHR ''1'' CHR ''2'' CHR ''I''
             \<and> stream_format s0 = RS_FORMAT_Y16 \<and> stream_format s1 = RS_FORMAT_Y16
             \<and> stream_width s0 = stream_width s1 \<and> stream_height s0 = stream_height s1
             \<and> stream_width s0 \<le> mode_width m \<and> stream_height s0 \<le> mode_height m
          then Inr (map (\<lambda>i. y12i_split_l (y12i_source source i)) (rect_reads m s0),
                    map (\<lambda>i. y12i_split_r (y12i_source source i)) (rect_reads m s0))
          else Inl ContractViolation
      | _ \<Rightarrow> Inl ContractViolation)"
    by (simp only: unpack_y16_y16_from_y12i_10_def split_frame_reads)
  show "uint (y12i_split_l (y12i_of_bytes b0 b1 b2)) = y12i_expand (uint b2 * 16 + uint b1 div 16)"
    by (simp only: uint_y12i_split y12i_l_bytes)
  show "uint (y12i_split_r (y12i_of_bytes b0 b1 b2))
          = y12i_expand ((uint b1 mod 16) * 256 + uint b0)"
    by (simp only: uint_y12i_split y12i_r_bytes)
qed (simp_all add: y12i_of_bytes_def y12i_split_l_def y12i_split_r_def y12i_l_def y12i_r_def
    y12i_expand_def)

theorem y12i_split_witness:
  "unpack_y16_y16_from_y12i_10 y12i_scenario y12i_1x1 = Inr ([0xFFFF], [0x3FCF])"
  using y12i_split [of y12i_scenario y12i_1x1] rect_reads_1x1(2)
  by (simp add: y12i_1x1_def y12i_scn y12i_split_l_def y12i_split_r_def y12i_l_def y12i_r_def)


subsection \<open>Image size by FourCC\<close>

lemma c_div_exact:
  assumes "0 < b" "a mod b = 0"
  shows "c_div a b = a div b"
proof -
  from assms(2) obtain q where q: "a = b * q" by (auto simp: mod_eq_0_iff_dvd)
  with assms(1) have "\<bar>a\<bar> div \<bar>b\<bar> = \<bar>q\<bar>" by (simp add: abs_mult)
  moreover have "sgn a = sgn q" using q assms(1) by (simp add: sgn_mult)
  moreover have "sgn b = 1" using assms(1) by simp
  moreover have "a div b = q" using q assms(1) by simp
  ultimately show ?thesis by (simp add: c_div_def mult_sgn_abs)
qed

lemma c_rem_eq_0_iff:
  assumes "0 < b"
  shows "c_rem a b = 0 \<longleftrightarrow> a mod b = 0"
proof
  assume "c_rem a b = 0"
  then have "a = b * c_div a b" by (simp add: c_rem_def)
  then have "b dvd a" by (metis dvd_triv_left)
  then show "a mod b = 0" by (simp add: mod_eq_0_iff_dvd)
next
  assume m: "a mod b = 0"
  then have "c_div a b = a div b" using assms by (rule c_div_exact [rotated])
  with m show "c_rem a b = 0" by (simp add: c_rem_def mod_eq_0_iff_dvd)
qed

lemma fourcc_values:
  "fourcc_lit CHR ''Y'' CHR ''U'' CHR ''Y'' CHR ''2'' = 0x59555932"
  "fourcc_lit CHR ''Z'' CHR ''1'' CHR ''6'' CHR '' '' = 0x5A313620"
  "fourcc_lit CHR ''Y'' CHR ''8'' CHR '' '' CHR '' '' = 0x59382020"
  "fourcc_lit CHR ''Y'' CHR ''1'' CHR ''6'' CHR '' '' = 0x59313620"
  "fourcc_lit CHR ''Y'' CHR ''8'' CHR ''I'' CHR '' '' = 0x59384920"
  "fourcc_lit CHR ''Y'' CHR ''1'' CHR ''2'' CHR ''I'' = 0x59313249"
  "fourcc_lit CHR ''I'' CHR ''N'' CHR ''V'' CHR ''R'' = 0x494E5652"
  "fourcc_lit CHR ''I'' CHR ''N'' CHR ''V'' CHR ''Z'' = 0x494E565A"
  "fourcc_lit CHR ''I'' CHR ''N'' CHR ''V'' CHR ''I'' = 0x494E5649"
  "fourcc_lit CHR ''I'' CHR ''N'' CHR ''R'' CHR ''I'' = 0x494E5249"
  "fourcc_lit CHR ''I'' CHR ''N'' CHR ''Z'' CHR ''I'' = 0x494E5A49"
  by (simp_all add: fourcc_lit_def)

lemma get_image_size_unsupported:
  "tag \<notin> fourcc_of ` fst ` set fourcc_table
     \<Longrightarrow> get_image_size_fourcc w h tag = Inl UnsupportedFormat"
  by (simp add: fourcc_table_def fourcc_of_def get_image_size_fourcc_def formats_def
      fourcc_values)

lemma fourcc_table_cases:
  assumes "(name, mw, mb) \<in> set fourcc_table"
  obtains "name = ''YUY2''" "mw = 2" "mb = 4"
    | "name = ''Z16 ''" "mw = 1" "mb = 2"
    | "name = ''Y8  ''" "mw = 1" "mb = 1"
    | "name = ''Y16 ''" "mw = 1" "mb = 2"
    | "name = ''Y8I ''" "mw = 1" "mb = 2"
    | "name = ''Y12I''" "mw = 1" "mb = 3"
    | "name = ''INVR''" "mw = 1" "mb = 2"
    | "name = ''INVZ''" "mw = 1" "mb = 2"
    | "name = ''INVI''" "mw = 1" "mb = 1"
    | "name = ''INRI''" "mw = 1" "mb = 3"
    | "name = ''INZI''" "mw = 2" "mb = 4"
  using assms unfolding fourcc_table_def by simp (elim disjE conjE; blast)

lemma loop_skip:
  "format_fourcc f \<noteq> tag \<Longrightarrow>
     get_image_size_loop (f # fs) w h tag = get_image_size_loop fs w h tag"
  by simp

lemma loop_hit:
  "format_fourcc f = tag \<Longrightarrow> get_image_size_loop (f # fs) w h tag =
     (if c_rem w (macropixel_width f) \<noteq> 0 then Inl BadGeometry
      else Inr (word_of_int (int_wrap (c_div w (macropixel_width f) * h)) * macropixel_size f))"
  by simp

lemma get_image_size_entry:
  assumes "(name, mw, mb) \<in> set fourcc_table"
  shows "0 < mw \<and>
     get_image_size_fourcc w h (fourcc_of name) =
       (if c_rem w mw \<noteq> 0 then Inl BadGeometry
        else Inr (word_of_int (int_wrap (c_div w mw * h)) * word_of_int mb))"
  using assms
  by (cases rule: fourcc_table_cases; hypsubst)
    (simp_all add: fourcc_of_def get_image_size_fourcc_def formats_def fourcc_values
      loop_skip loop_hit del: get_image_size_loop.simps if_split)

lemma int_wrap_fits: "int_fits k \<Longrightarrow> int_wrap k = k"
  unfolding int_fits_def int_wrap_def by (rule signed_take_bit_int_eq_self) simp_all

lemma int_wrap_46341: "int_wrap (46341 * 46341) = - 2147479015"
  by (simp add: int_wrap_def signed_take_bit_eq_take_bit_shift take_bit_eq_mod)

text \<open>
  Claim C5, refuted as stated. For the width and height 46341 and the tag \<^verbatim>\<open>'Z16 '\<close>
  (macropixel width 1, so every width is a multiple) the \<^verbatim>\<open>int\<close> product
  \<open>46341 * 46341 = 2147488281\<close> does not fit an \<^verbatim>\<open>int\<close>: it wraps to \<open>-2147479015\<close>,
  and the function returns \<open>0xFFFFFFFF00002432\<close>, not
  \<open>(46341 / 1) * 46341 * 2 = 4294976562\<close>.
\<close>

theorem get_image_size_overflow_counterexample:
  "(''Z16 '', 1, 2) \<in> set fourcc_table \<and> (46341 :: int) mod 1 = 0
   \<and> get_image_size_fourcc 46341 46341 (fourcc_of ''Z16 '') = Inr 0xFFFFFFFF00002432
   \<and> get_image_size_fourcc 46341 46341 (fourcc_of ''Z16 '')
       \<noteq> Inr (word_of_int ((46341 div 1) * 46341 * 2))"
proof -
  have m: "(''Z16 '', 1, 2) \<in> set fourcc_table"
    by (simp add: fourcc_table_def)
  have "c_rem 46341 1 = 0" "c_div 46341 1 = 46341"
    by (simp_all add: c_rem_def c_div_def)
  with get_image_size_entry [OF m, of 46341 46341]
  have r: "get_image_size_fourcc 46341 46341 (fourcc_of ''Z16 '')
      = Inr (word_of_int (int_wrap (46341 * 46341)) * word_of_int 2)"
    by simp
  have "get_image_size_fourcc 46341 46341 (fourcc_of ''Z16 '') = Inr 0xFFFFFFFF00002432"
    unfolding r int_wrap_46341 by simp
  with m show ?thesis
    by simp
qed

text \<open>
  Claim C5, amended. For every width, height and tag: a tag that is none of the 11 codes of
  the table fails with \<open>UnsupportedFormat\<close>; a code of the table with a width that is not
  a multiple of its macropixel width fails with \<open>BadGeometry\<close>; a code of the table with
  a width that is a multiple returns, as a \<^verbatim>\<open>size_t\<close>, the product of
  \<open>(w / macropixel_width) * h\<close> reduced to a 32-bit \<^verbatim>\<open>int\<close> and of \<open>macropixel_bytes\<close>,
  which is \<open>(w / macropixel_width) * h * macropixel_bytes\<close> whenever
  \<open>(w / macropixel_width) * h\<close> is in the range of \<^verbatim>\<open>int\<close>.
\<close>

theorem get_image_size_fourcc_spec:
  "(tag \<notin> fourcc_of ` fst ` set fourcc_table
      \<longrightarrow> get_image_size_fourcc w h tag = Inl UnsupportedFormat)
   \<and> ((name, mw, mb) \<in> set fourcc_table \<and> w mod mw \<noteq> 0
      \<longrightarrow> get_image_size_fourcc w h (fourcc_of name) = Inl BadGeometry)
   \<and> ((name, mw, mb) \<in> set fourcc_table \<and> w mod mw = 0
      \<longrightarrow> get_image_size_fourcc w h (fourcc_of name)
            = Inr (word_of_int (int_wrap ((w div mw) * h)) * word_of_int mb))
   \<and> ((name, mw, mb) \<in> set fourcc_table \<and> w mod mw = 0 \<and> int_fits ((w div mw) * h)
      \<longrightarrow> get_image_size_fourcc w h (fourcc_of name)
            = Inr (word_of_int ((w div mw) * h * mb)))"
proof (intro conjI impI)
  assume "tag \<notin> fourcc_of ` fst ` set fourcc_table"
  then show "get_image_size_fourcc w h tag = Inl UnsupportedFormat"
    by (rule get_image_size_unsupported)
next
  assume a: "(name, mw, mb) \<in> set fourcc_table \<and> w mod mw \<noteq> 0"
  then have e: "0 < mw" and r: "get_image_size_fourcc w h (fourcc_of name) =
       (if c_rem w mw \<noteq> 0 then Inl BadGeometry
        else Inr (word_of_int (int_wrap (c_div w mw * h)) * word_of_int mb))"
    using get_image_size_entry [of name mw mb w h] by simp_all
  from a e have "c_rem w mw \<noteq> 0"
    by (simp add: c_rem_eq_0_iff)
  with r show "get_image_size_fourcc w h (fourcc_of name) = Inl BadGeometry"
    by simp
next
  assume a: "(name, mw, mb) \<in> set fourcc_table \<and> w mod mw = 0"
  then have e: "0 < mw" and r: "get_image_size_fourcc w h (fourcc_of name) =
       (if c_rem w mw \<noteq> 0 then Inl BadGeometry
        else Inr (word_of_int (int_wrap (c_div w mw * h)) * word_of_int mb))"
    using get_image_size_entry [of name mw mb w h] by simp_all
  from a e have "c_rem w mw = 0" and "c_div w mw = w div mw"
    by (simp_all add: c_rem_eq_0_iff c_div_exact)
  with r show "get_image_size_fourcc w h (fourcc_of name)
      = Inr (word_of_int (int_wrap ((w div mw) * h)) * word_of_int mb)"
    by simp
next
  assume a: "(name, mw, mb) \<in> set fourcc_table \<and> w mod mw = 0 \<and> int_fits ((w div mw) * h)"
  then have e: "0 < mw" and r: "get_image_size_fourcc w h (fourcc_of name) =
       (if c_rem w mw \<noteq> 0 then Inl BadGeometry
        else Inr (word_of_int (int_wrap (c_div w mw * h)) * word_of_int mb))"
    using get_image_size_entry [of name mw mb w h] by simp_all
  from a e have "c_rem w mw = 0" and "c_div w mw = w div mw"
    by (simp_all add: c_rem_eq_0_iff c_div_exact)
  moreover from a have "int_wrap ((w div mw) * h) = (w div mw) * h"
    by (simp add: int_wrap_fits)
  ultimately show "get_image_size_fourcc w h (fourcc_of name)
      = Inr (word_of_int ((w div mw) * h * mb))"
    using r by simp
qed

theorem get_image_size_fourcc_spec_witness:
  "get_image_size_fourcc 640 480 0x12345678 = Inl UnsupportedFormat
   \<and> get_image_size_fourcc 641 480 (fourcc_of ''YUY2'') = Inl BadGeometry
   \<and> get_image_size_fourcc 640 480 (fourcc_of ''YUY2'') = Inr 614400"
  using get_image_size_fourcc_spec [of "0x12345678" 640 480, THEN conjunct1]
    get_image_size_fourcc_spec [of _ 641 _ "''YUY2''" 2 4, THEN conjunct2, THEN conjunct1]
    get_image_size_fourcc_spec [of _ 640 480 "''YUY2''" 2 4, THEN conjunct2, THEN conjunct2,
      THEN conjunct2]
  by (simp add: fourcc_table_def fourcc_of_def fourcc_values int_fits_def)

subsection \<open>Equality of thermal tables\<close>

lemma all_from_split:
  "i < n \<Longrightarrow> (\<forall>j. i \<le> j \<and> j < n \<longrightarrow> P j) \<longleftrightarrow> P i \<and> (\<forall>j. i + 1 \<le> j \<and> j < (n::nat) \<longrightarrow> P j)"
proof -
  assume i: "i < n"
  have "i \<le> j \<longleftrightarrow> j = i \<or> i + 1 \<le> j" for j
    by linarith
  then show ?thesis
    using i by auto
qed

lemma vals_equal_from_step:
  "vals_equal_from lhs rhs i \<longleftrightarrow>
     (i < length (vals rhs) \<longrightarrow> same_at lhs rhs i \<and> vals_equal_from lhs rhs (i + 1))"
  by (subst vals_equal_from.simps [of lhs rhs i]) (auto simp: same_at_def float_ne_def)

lemma vals_equal_from_iff:
  "vals_equal_from lhs rhs i \<longleftrightarrow> (\<forall>j. i \<le> j \<and> j < length (vals rhs) \<longrightarrow> same_at lhs rhs j)"
proof (induction k \<equiv> "length (vals rhs) - i" arbitrary: i)
  case 0
  then have "\<not> i < length (vals rhs)" by simp
  then show ?case
    by (subst vals_equal_from_step [of lhs rhs i]) auto
next
  case (Suc k)
  then have i: "i < length (vals rhs)" and k: "k = length (vals rhs) - (i + 1)"
    by simp_all
  have "vals_equal_from lhs rhs i \<longleftrightarrow> same_at lhs rhs i \<and> vals_equal_from lhs rhs (i + 1)"
    using i by (subst vals_equal_from_step [of lhs rhs i]) simp
  also have "\<dots> \<longleftrightarrow> same_at lhs rhs i
      \<and> (\<forall>j. i + 1 \<le> j \<and> j < length (vals rhs) \<longrightarrow> same_at lhs rhs j)"
    by (simp only: Suc.hyps(1) [OF k])
  also have "\<dots> \<longleftrightarrow> (\<forall>j. i \<le> j \<and> j < length (vals rhs) \<longrightarrow> same_at lhs rhs j)"
    using all_from_split [OF i, of "same_at lhs rhs"] by simp
  finally show ?case .
qed

lemma float_zero_cases:
  assumes "float_is_zero a"
  shows "a = 0 \<or> a = 0x80000000"
proof -
  have "uint (take_bit 31 a) = 0"
    using assms by (simp add: float_is_zero_def)
  then have m: "uint a mod 2 ^ 31 = 0"
    by (simp add: take_bit_eq_mod uint_mod)
  have "0 \<le> uint a" "uint a < 2 ^ 32"
    using uint_lt2p [of a] by simp_all
  moreover obtain d where d: "uint a = 2147483648 * d"
    using m by (auto simp: mod_eq_0_iff_dvd)
  ultimately have "0 \<le> d" "d < 2"
    by simp_all
  then have "d = 0 \<or> d = 1"
    by linarith
  with d have "uint a = 0 \<or> uint a = 2147483648"
    by auto
  then show ?thesis
  proof
    assume "uint a = 0"
    then have "word_of_int (uint a) = (word_of_int 0 :: 32 word)"
      by simp
    then show ?thesis by simp
  next
    assume "uint a = 2147483648"
    then have "word_of_int (uint a) = (word_of_int 2147483648 :: 32 word)"
      by simp
    then show ?thesis by simp
  qed
qed

lemma float_eq_plain:
  assumes "float_plain a" "float_plain b"
  shows "float_eq a b \<longleftrightarrow> a = b"
proof -
  have "a = 0" if "float_is_zero a" using that assms(1) float_zero_cases [of a]
    by (auto simp: float_plain_def)
  moreover have "b = 0" if "float_is_zero b" using that assms(2) float_zero_cases [of b]
    by (auto simp: float_plain_def)
  ultimately show ?thesis
    using assms by (auto simp: float_eq_def float_plain_def)
qed


lemma operator_eq_iff:
  "operator_eq lhs rhs \<longleftrightarrow>
     length (vals lhs) = length (vals rhs)
     \<and> float_eq (min_temp (header lhs)) (min_temp (header rhs))
     \<and> float_eq (max_temp (header lhs)) (max_temp (header rhs))
     \<and> float_eq (reference_temp (header lhs)) (reference_temp (header rhs))
     \<and> float_eq (valid (header lhs)) (valid (header rhs))
     \<and> (\<forall>j < length (vals rhs). same_at lhs rhs j)"
  by (auto simp: operator_eq_def float_ne_def vals_equal_from_iff)

lemma header_eq_plain:
  assumes "header_plain a" "header_plain b"
  shows "float_eq (min_temp a) (min_temp b) \<and> float_eq (max_temp a) (max_temp b)
     \<and> float_eq (reference_temp a) (reference_temp b) \<and> float_eq (valid a) (valid b)
     \<longleftrightarrow> a = b"
  using assms by (cases a; cases b) (auto simp: header_plain_def float_eq_plain)

lemma temp_data_eq_plain:
  assumes "temp_data_plain a" "temp_data_plain b"
  shows "float_eq (scale a) (scale b) \<and> float_eq (sheer a) (sheer b)
     \<and> float_eq (tx a) (tx b) \<and> float_eq (ty a) (ty b)
     \<longleftrightarrow> a = b"
  using assms by (cases a; cases b) (auto simp: temp_data_plain_def float_eq_plain)

lemma same_at_plain:
  assumes "table_plain lhs" "table_plain rhs" "length (vals lhs) = length (vals rhs)"
    "j < length (vals rhs)"
  shows "same_at lhs rhs j \<longleftrightarrow> vals lhs ! j = vals rhs ! j"
proof -
  have "temp_data_plain (vals lhs ! j)" "temp_data_plain (vals rhs ! j)"
    using assms by (simp_all add: table_plain_def list_all_length)
  then show ?thesis
    unfolding same_at_def by (rule temp_data_eq_plain)
qed

text \<open>
  Claim C9, amended. \<^verbatim>\<open>operator==\<close> returns true if and only if the two tables have the same
  number of entries and the four header fields and the four fields of every entry are
  equal under the IEEE comparison of \<^verbatim>\<open>float\<close>. For tables none of whose fields is a NaN
  or \<open>-0.0\<close> this is the bitwise equality of the header and of all entries.
\<close>

theorem operator_eq_ieee:
  "(operator_eq lhs rhs \<longleftrightarrow>
      length (vals lhs) = length (vals rhs)
      \<and> float_eq (min_temp (header lhs)) (min_temp (header rhs))
      \<and> float_eq (max_temp (header lhs)) (max_temp (header rhs))
      \<and> float_eq (reference_temp (header lhs)) (reference_temp (header rhs))
      \<and> float_eq (valid (header lhs)) (valid (header rhs))
      \<and> (\<forall>j < length (vals rhs). same_at lhs rhs j))
   \<and> (table_plain lhs \<and> table_plain rhs \<longrightarrow>
        (operator_eq lhs rhs \<longleftrightarrow> header lhs = header rhs \<and> vals lhs = vals rhs))"
proof (intro conjI impI)
  assume p: "table_plain lhs \<and> table_plain rhs"
  then have h: "header_plain (header lhs)" "header_plain (header rhs)"
    by (simp_all add: table_plain_def)
  show "operator_eq lhs rhs \<longleftrightarrow> header lhs = header rhs \<and> vals lhs = vals rhs"
  proof (cases "length (vals lhs) = length (vals rhs)")
    case False
    then show ?thesis
      by (auto simp: operator_eq_iff)
  next
    case True
    then have "(\<forall>j < length (vals rhs). same_at lhs rhs j) \<longleftrightarrow> vals lhs = vals rhs"
      using p by (auto simp: same_at_plain list_eq_iff_nth_eq)
    with True header_eq_plain [OF h] show ?thesis
      unfolding operator_eq_iff by blast
  qed
qed (rule operator_eq_iff)

lemma float_facts:
  "\<not> float_is_nan 0" "\<not> float_is_nan 0x80000000" "float_is_nan 0x7FC00000"
  "float_is_zero 0" "float_is_zero 0x80000000"
  by (simp_all add: float_is_nan_def float_is_zero_def)

lemma table_plain_zero: "table_plain zero_table"
  by (simp add: table_plain_def zero_table_def table_with_min_temp_def header_plain_def
      temp_data_plain_def float_plain_def float_facts list_all_length)

theorem operator_eq_ieee_witness:
  "table_plain zero_table \<and> operator_eq zero_table zero_table"
  using operator_eq_ieee [of zero_table zero_table, THEN conjunct2] table_plain_zero
  by simp

text \<open>
  Claim C9, refuted as stated: a table that holds a NaN is not equal to itself, though its
  bits are its own; and two tables that differ in the sign bit of a zero are equal.
\<close>

theorem operator_eq_bitwise_counterexample:
  "\<not> operator_eq nan_table nan_table
   \<and> operator_eq zero_table neg_zero_table
   \<and> min_temp (header zero_table) \<noteq> min_temp (header neg_zero_table)"
  by (simp add: operator_eq_iff nan_table_def zero_table_def neg_zero_table_def
      table_with_min_temp_def same_at_def float_eq_def float_facts)


subsection \<open>The alignment kernel\<close>

lemma kernel_inner:
  "foldl (\<lambda>s x. (fst s + 1, f x (fst s) (snd s))) s0 [0..<n]
     = (fst s0 + int n, foldl (\<lambda>s x. f x (fst s0 + int x) s) (snd s0) [0..<n])"
  by (induction n) (simp_all add: algebra_simps)

lemma kernel_outer:
  "foldl (\<lambda>s y. (fst s + d, g y (fst s) (snd s))) s0 [0..<n]
     = (fst s0 + int n * d, foldl (\<lambda>s y. g y (fst s0 + int y * d) s) (snd s0) [0..<n])"
  by (induction n) (simp_all add: algebra_simps)

lemma foldl_concat_map:
  "foldl f s (concat (map g xs)) = foldl (\<lambda>s x. foldl f s (g x)) s xs"
  by (induction xs arbitrary: s) simp_all

lemma align_images_foldl:
  "align_images U di e oi get_depth tp s =
     foldl (\<lambda>s y. foldl (\<lambda>s x.
         align_pixel U di e oi get_depth tp (int x) (int y)
           (int y * int (nat (intrin_width di)) + int x) s)
       s [0..<nat (intrin_width di)])
     s [0..<nat (intrin_height di)]"
proof -
  define n where "n = nat (intrin_width di)"
  have inner: "for_loop 0 (intrin_width di)
        (\<lambda>depth_x (depth_pixel_index, s).
           (depth_pixel_index + 1,
            align_pixel U di e oi get_depth tp depth_x depth_y depth_pixel_index s)) st
      = (fst st + int n,
         foldl (\<lambda>s x. align_pixel U di e oi get_depth tp (int x) depth_y (fst st + int x) s)
           (snd st) [0..<n])" for st depth_y
    using kernel_inner [of "\<lambda>x. align_pixel U di e oi get_depth tp (int x) depth_y" st n]
    by (simp add: for_loop_upt case_prod_beta flip: n_def)
  show ?thesis
    unfolding align_images_def
    using kernel_outer [of "int n"
        "\<lambda>y i s. foldl (\<lambda>s x. align_pixel U di e oi get_depth tp (int x) (int y) (i + int x) s)
           s [0..<n]" "(0, s)" "nat (intrin_height di)"]
    by (simp add: for_loop_upt [of "intrin_height di"] inner case_prod_beta flip: n_def)
qed

lemma align_pixel_calls:
  "align_pixel U di e oi get_depth tp x y i s =
     foldl (\<lambda>s (d, c). tp d c s) s
       (align_pixel U di e oi get_depth (\<lambda>d c calls. calls @ [(d, c)]) x y i [])"
  by (simp add: align_pixel_def Let_def split: prod.splits)

lemma align_pixel_append:
  "align_pixel U di e oi get_depth (\<lambda>d c calls. calls @ [(d, c)]) x y i calls =
     calls @ align_pixel U di e oi get_depth (\<lambda>d c calls. calls @ [(d, c)]) x y i []"
  by (simp add: align_pixel_def Let_def split: prod.splits)

lemma foldl_append_step:
  "foldl (\<lambda>s x. s @ g x) s xs = s @ concat (map g xs)"
  by (induction xs arbitrary: s) simp_all

lemma align_pixel_expected:
  "align_pixel U di e oi get_depth (\<lambda>d c calls. calls @ [(d, c)]) x y
       (y * intrin_width di + x) []
     = expected_transfer U di e oi get_depth x y"
  by (auto simp: align_pixel_def expected_transfer_def Let_def split: prod.splits)

lemma align_calls_rows:
  "align_calls U di e oi get_depth =
     concat (map (\<lambda>y. concat (map (\<lambda>x. expected_transfer U di e oi get_depth (int x) (int y))
                                   [0..<nat (intrin_width di)]))
                 [0..<nat (intrin_height di)])"
proof -
  have w: "int (nat (intrin_width di)) = intrin_width di" if "x < nat (intrin_width di)" for x
    using that by simp
  have row: "foldl (\<lambda>s x. align_pixel U di e oi get_depth (\<lambda>d c calls. calls @ [(d, c)])
                 (int x) (int y) (int y * int (nat (intrin_width di)) + int x) s)
               s [0..<nat (intrin_width di)]
      = s @ concat (map (\<lambda>x. expected_transfer U di e oi get_depth (int x) (int y))
                [0..<nat (intrin_width di)])" for s y
  proof -
    have "foldl (\<lambda>s x. align_pixel U di e oi get_depth (\<lambda>d c calls. calls @ [(d, c)])
                 (int x) (int y) (int y * int (nat (intrin_width di)) + int x) s)
               s [0..<nat (intrin_width di)]
        = foldl (\<lambda>s x. s @ expected_transfer U di e oi get_depth (int x) (int y))
               s [0..<nat (intrin_width di)]"
    proof (rule foldl_cong [OF refl refl])
      fix a x
      assume "x \<in> set [0..<nat (intrin_width di)]"
      then have "int (nat (intrin_width di)) = intrin_width di"
        by simp
      then show "align_pixel U di e oi get_depth (\<lambda>d c calls. calls @ [(d, c)])
                 (int x) (int y) (int y * int (nat (intrin_width di)) + int x) a
          = a @ expected_transfer U di e oi get_depth (int x) (int y)"
        using align_pixel_append [of U di e oi get_depth "int x" "int y"
            "int y * intrin_width di + int x" a]
        by (simp only: align_pixel_expected)
    qed
    then show ?thesis
      by (simp only: foldl_append_step)
  qed
  show ?thesis
    unfolding align_calls_def align_images_foldl row
    by (simp only: foldl_append_step append_Nil)
qed

lemma align_images_calls:
  "align_images U di e oi get_depth tp s =
     foldl (\<lambda>s (d, c). tp d c s) s (align_calls U di e oi get_depth)"
proof -
  have pix: "align_pixel U di e oi get_depth tp (int x) (int y)
               (int y * int (nat (intrin_width di)) + int x) s
      = foldl (\<lambda>s (d, c). tp d c s) s (expected_transfer U di e oi get_depth (int x) (int y))"
    if "x < nat (intrin_width di)" for x y s
  proof -
    from that have "int (nat (intrin_width di)) = intrin_width di"
      by simp
    then show ?thesis
      using align_pixel_calls [of U di e oi get_depth tp "int x" "int y"
          "int y * intrin_width di + int x" s]
      by (simp only: align_pixel_expected)
  qed
  have row: "foldl (\<lambda>s x. align_pixel U di e oi get_depth tp (int x) (int y)
                 (int y * int (nat (intrin_width di)) + int x) s) s [0..<nat (intrin_width di)]
      = foldl (\<lambda>s x. foldl (\<lambda>s (d, c). tp d c s) s
                 (expected_transfer U di e oi get_depth (int x) (int y)))
          s [0..<nat (intrin_width di)]" for y s
  proof (rule foldl_cong [OF refl refl])
    fix a x
    assume "x \<in> set [0..<nat (intrin_width di)]"
    then have "x < nat (intrin_width di)"
      by simp
    then show "align_pixel U di e oi get_depth tp (int x) (int y)
                 (int y * int (nat (intrin_width di)) + int x) a
        = foldl (\<lambda>s (d, c). tp d c s) a
            (expected_transfer U di e oi get_depth (int x) (int y))"
      by (rule pix)
  qed
  show ?thesis
    unfolding align_images_foldl row align_calls_rows
    by (simp only: foldl_concat_map)
qed

lemma index_inj:
  fixes W :: int
  assumes "0 \<le> x" "x < W" "0 \<le> x'" "x' < W" "y * W + x = y' * W + x'"
  shows "x = x' \<and> y = y'"
proof -
  have W: "0 < W" using assms by linarith
  have d: "(y * W + x) div W = y" and d': "(y' * W + x') div W = y'"
    using assms(1-4) W by (simp_all add: div_pos_pos_trivial)
  from assms(5) have "(y * W + x) div W = (y' * W + x') div W"
    by (rule arg_cong)
  then have "y = y'"
    unfolding d d' .
  with assms(5) show ?thesis by simp
qed

lemma concat_map_single:
  "distinct xs \<Longrightarrow> a \<in> set xs \<Longrightarrow> concat (map (\<lambda>x. if x = a then v else []) xs) = v"
proof (induction xs)
  case Nil
  then show ?case by simp
next
  case (Cons b xs)
  show ?case
  proof (cases "b = a")
    case True
    with Cons.prems have "a \<notin> set xs" by simp
    then have "concat (map (\<lambda>x. if x = a then v else []) xs) = []"
      by (induction xs) auto
    with True show ?thesis by simp
  next
    case False
    with Cons show ?thesis by simp
  qed
qed

lemma filter_concat_map:
  "filter P (concat (map g xs)) = concat (map (\<lambda>x. filter P (g x)) xs)"
  by (induction xs) simp_all

lemma expected_transfer_fst:
  "(d, c) \<in> set (expected_transfer U di e oi get_depth x y) \<Longrightarrow> d = y * intrin_width di + x"
  by (auto simp: expected_transfer_def Let_def split: prod.splits if_splits)

lemma filter_expected_transfer:
  assumes "xn < nat (intrin_width di)" "x' < nat (intrin_width di)"
  shows "filter (\<lambda>(d, c). d = int yn * intrin_width di + int xn)
           (expected_transfer U di e oi get_depth (int x') (int y'))
         = (if x' = xn \<and> y' = yn then expected_transfer U di e oi get_depth (int xn) (int yn)
            else [])"
proof (cases "x' = xn \<and> y' = yn")
  case True
  then show ?thesis
    by (auto simp: filter_id_conv dest: expected_transfer_fst)
next
  case False
  have "d \<noteq> int yn * intrin_width di + int xn"
    if "(d, c) \<in> set (expected_transfer U di e oi get_depth (int x') (int y'))" for d c
  proof
    assume "d = int yn * intrin_width di + int xn"
    with expected_transfer_fst [OF that]
    have "int y' * intrin_width di + int x' = int yn * intrin_width di + int xn"
      by simp
    then have "int x' = int xn \<and> int y' = int yn"
      using assms by (intro index_inj [of _ "intrin_width di"]) simp_all
    with False show False by simp
  qed
  then have "filter (\<lambda>(d, c). d = int yn * intrin_width di + int xn)
           (expected_transfer U di e oi get_depth (int x') (int y')) = []"
    by (auto simp: filter_empty_conv)
  with False show ?thesis by auto
qed

lemma filter_align_calls:
  assumes "0 \<le> x" "x < intrin_width di" "0 \<le> y" "y < intrin_height di"
  shows "filter (\<lambda>(d, c). d = y * intrin_width di + x) (align_calls U di e oi get_depth)
         = expected_transfer U di e oi get_depth x y"
proof -
  define xn yn where "xn = nat x" and "yn = nat y"
  have xy: "x = int xn" "y = int yn" "xn < nat (intrin_width di)" "yn < nat (intrin_height di)"
    using assms by (simp_all add: xn_def yn_def)
  have row: "concat (map (\<lambda>x'. filter (\<lambda>(d, c). d = int yn * intrin_width di + int xn)
                 (expected_transfer U di e oi get_depth (int x') (int y')))
               [0..<nat (intrin_width di)])
      = (if y' = yn then expected_transfer U di e oi get_depth (int xn) (int yn) else [])" for y'
  proof -
    have "map (\<lambda>x'. filter (\<lambda>(d, c). d = int yn * intrin_width di + int xn)
                 (expected_transfer U di e oi get_depth (int x') (int y')))
               [0..<nat (intrin_width di)]
        = map (\<lambda>x'. if x' = xn
                 then (if y' = yn then expected_transfer U di e oi get_depth (int xn) (int yn)
                       else [])
                 else [])
               [0..<nat (intrin_width di)]"
      using xy(3) by (intro map_cong refl) (simp add: filter_expected_transfer)
    then show ?thesis
      using xy(3) by (simp only: concat_map_single [OF distinct_upt] set_upt atLeastLessThan_iff
          le0 simp_thms)
  qed
  show ?thesis
    unfolding align_calls_rows filter_concat_map xy(1,2) row
    using xy(4) by (simp only: concat_map_single [OF distinct_upt] set_upt atLeastLessThan_iff
          le0 simp_thms)
qed

text \<open>
  Claim C1. In \<^verbatim>\<open>align_images\<close>, for every depth pixel \<open>(x, y)\<close> of the depth image, the
  calls of the transfer callback with depth index \<open>y * Wd + x\<close> are: none, if the fetched
  depth is zero; exactly the one call with \<open>(y * Wd + x, oy * Wo + ox)\<close>, if the rounded
  projection \<open>(ox, oy)\<close> lies inside \<open>[0, Wo) \<times> [0, Ho)\<close>; none, if it lies outside. The
  calls recorded by \<open>align_calls\<close> are the calls made to any callback, in order.
\<close>

theorem align_images_transfers:
  assumes "0 \<le> x" "x < intrin_width di" "0 \<le> y" "y < intrin_height di"
  shows "filter (\<lambda>(d, c). d = y * intrin_width di + x) (align_calls U di e oi get_depth)
           = (let depth = get_depth (y * intrin_width di + x);
                  (ox, oy) = rounded_pixel U di e oi x y depth
              in if \<not> float_to_bool U depth then []
                 else if 0 \<le> ox \<and> ox < intrin_width oi \<and> 0 \<le> oy \<and> oy < intrin_height oi
                 then [(y * intrin_width di + x, oy * intrin_width oi + ox)]
                 else [])
         \<and> align_images U di e oi get_depth transfer_pixel s
           = foldl (\<lambda>s (d, c). transfer_pixel d c s) s (align_calls U di e oi get_depth)"
  using filter_align_calls [OF assms, of U e oi get_depth]
    align_images_calls [of U di e oi get_depth transfer_pixel s]
  by (simp only: expected_transfer_def simp_thms)

lemma upt_small: "[0..<2] = [0, 1]" "[0..<1] = [0]"
  by (simp_all add: numeral_2_eq_2)

theorem align_images_transfers_witness:
  "filter (\<lambda>(d, c). d = 0 * 2 + 1)
     (align_calls (toy_rsutil (\<lambda>x y. (x, y))) (image_size 2 1) () (image_size 2 1)
        (\<lambda>i. if i = 0 then 0 else 1000))
     = [(1, 1)]
   \<and> filter (\<lambda>(d, c). d = 0 * 2 + 0)
     (align_calls (toy_rsutil (\<lambda>x y. (x, y))) (image_size 2 1) () (image_size 2 1)
        (\<lambda>i. if i = 0 then 0 else 1000))
     = []"
  using align_images_transfers [of 1 "image_size 2 1" 0 "toy_rsutil (\<lambda>x y. (x, y))" "()"
      "image_size 2 1" "\<lambda>i. if i = 0 then 0 else 1000", THEN conjunct1]
    align_images_transfers [of 0 "image_size 2 1" 0 "toy_rsutil (\<lambda>x y. (x, y))" "()"
      "image_size 2 1" "\<lambda>i. if i = 0 then 0 else 1000", THEN conjunct1]
  by (simp add: toy_rsutil_def image_size_def)

lemma foldl_upd_last:
  "foldl (\<lambda>out (d, c). out(c := v d)) out0 calls j =
     (if map fst (filter (\<lambda>(d, c). c = j) calls) = [] then out0 j
      else v (last (map fst (filter (\<lambda>(d, c). c = j) calls))))"
  by (induction calls rule: rev_induct) (auto split: prod.splits)

lemma map_fst_filter_expected:
  "map fst (filter (\<lambda>(d, c). c = j) (expected_transfer U di e oi get_depth x y)) =
     (let i = y * intrin_width di + x;
          depth = get_depth i;
          (ox, oy) = rounded_pixel U di e oi x y depth
      in if float_to_bool U depth
            \<and> 0 \<le> ox \<and> ox < intrin_width oi \<and> 0 \<le> oy \<and> oy < intrin_height oi
            \<and> oy * intrin_width oi + ox = j
         then [i] else [])"
  by (auto simp: expected_transfer_def Let_def split: prod.splits)

lemma writers_to_calls:
  "map fst (filter (\<lambda>(d, c). c = j)
       (align_calls U di e ci (\<lambda>i. times_u16 U (depth_pixels i) depth_scale)))
     = writers_to U depth_pixels depth_scale di e ci j"
  unfolding align_calls_rows writers_to_def filter_concat_map map_concat map_map comp_def
    map_fst_filter_expected ..

text \<open>
  Claim C2. After \<^verbatim>\<open>align_depth_to_color\<close>, a destination index that no depth pixel
  projects to is unchanged; any other holds the raw 16-bit value \<open>depth_pixels[i]\<close>, not
  scaled, of the last depth pixel \<open>i\<close> in raster order among those that project to it.
\<close>

theorem align_depth_to_color_last_writer:
  "align_depth_to_color U out0 depth_pixels depth_scale di e ci j =
     (if writers_to U depth_pixels depth_scale di e ci j = [] then out0 j
      else depth_pixels (last (writers_to U depth_pixels depth_scale di e ci j)))"
  unfolding align_depth_to_color_def align_images_calls foldl_upd_last writers_to_calls ..

lemma toy_writers:
  "writers_to (toy_rsutil (\<lambda>x y. (0, 0))) (\<lambda>i. if i = 0 then 7 else 9) 1
     (image_size 2 1) () (image_size 1 1) 0 = [0, 1]"
  by (simp add: writers_to_def toy_rsutil_def image_size_def upt_small)

theorem align_depth_to_color_last_writer_witness:
  "align_depth_to_color (toy_rsutil (\<lambda>x y. (0, 0))) (\<lambda>j. 0) (\<lambda>i. if i = 0 then 7 else 9) 1
     (image_size 2 1) () (image_size 1 1) 0 = 9"
  using align_depth_to_color_last_writer [of "toy_rsutil (\<lambda>x y. (0, 0))" "\<lambda>j. 0"
      "\<lambda>i. if i = 0 then 7 else 9" 1 "image_size 2 1" "()" "image_size 1 1" 0]
  by (simp only: toy_writers) simp

subsection \<open>Other to depth\<close>

lemma align_calls_member:
  assumes "(d, c) \<in> set (align_calls U di e oi get_depth)"
  obtains x y where "0 \<le> x" "x < intrin_width di" "0 \<le> y" "y < intrin_height di"
    "(d, c) \<in> set (expected_transfer U di e oi get_depth x y)"
proof -
  from assms obtain yn xn where "yn < nat (intrin_height di)" "xn < nat (intrin_width di)"
    "(d, c) \<in> set (expected_transfer U di e oi get_depth (int xn) (int yn))"
    unfolding align_calls_rows by auto
  then show ?thesis
    by (intro that [of "int xn" "int yn"]) simp_all
qed

lemma index_bound:
  fixes W :: int
  assumes "0 \<le> x" "x < W" "0 \<le> y" "y < H"
  shows "0 \<le> y * W + x \<and> y * W + x < W * H"
proof -
  have W: "0 \<le> W" using assms by linarith
  have "y + 1 \<le> H" using assms by simp
  then have "(y + 1) * W \<le> H * W"
    using W by (rule mult_right_mono)
  then have "y * W + x < W * H"
    using assms by (simp add: algebra_simps)
  moreover have "0 \<le> y * W" using assms W by simp
  ultimately show ?thesis using assms by simp
qed



lemma align_calls_depth_index:
  assumes "(d, c) \<in> set (align_calls U di e oi get_depth)"
  shows "0 \<le> d \<and> d < intrin_width di * intrin_height di"
proof -
  from assms obtain x y where xy: "0 \<le> x" "x < intrin_width di" "0 \<le> y" "y < intrin_height di"
    "(d, c) \<in> set (expected_transfer U di e oi get_depth x y)"
    by (rule align_calls_member)
  from expected_transfer_fst [OF xy(5)] index_bound [OF xy(1-4)] show ?thesis
    by simp
qed

lemma length_expected_transfer: "length (expected_transfer U di e oi get_depth x y) \<le> 1"
  by (simp add: expected_transfer_def Let_def split: prod.splits)

lemma distinct_if_filter_le1:
  "(\<And>a. length (filter (\<lambda>x. x = a) xs) \<le> 1) \<Longrightarrow> distinct xs"
proof (induction xs)
  case Nil
  then show ?case by simp
next
  case (Cons b xs)
  have "length (filter (\<lambda>x. x = a) xs) \<le> 1" for a
    using Cons.prems [of a] by (simp split: if_splits)
  then have "distinct xs" by (rule Cons.IH)
  moreover have "filter (\<lambda>x. x = b) xs = []"
    using Cons.prems [of b] by simp
  then have "b \<notin> set xs"
    by (auto simp: filter_empty_conv)
  ultimately show ?case by simp
qed

lemma distinct_align_calls: "distinct (map fst (align_calls U di e oi get_depth))"
proof (rule distinct_if_filter_le1)
  fix a
  have eq: "filter (\<lambda>d. d = a) (map fst (align_calls U di e oi get_depth))
      = map fst (filter (\<lambda>(d, c). d = a) (align_calls U di e oi get_depth))"
    by (simp add: filter_map comp_def case_prod_unfold)
  show "length (filter (\<lambda>d. d = a) (map fst (align_calls U di e oi get_depth))) \<le> 1"
  proof (cases "\<exists>x y. 0 \<le> x \<and> x < intrin_width di \<and> 0 \<le> y \<and> y < intrin_height di
      \<and> a = y * intrin_width di + x")
    case True
    then obtain x y where xy: "0 \<le> x" "x < intrin_width di" "0 \<le> y" "y < intrin_height di"
      and a: "a = y * intrin_width di + x"
      by blast
    have "filter (\<lambda>(d, c). d = a) (align_calls U di e oi get_depth)
        = expected_transfer U di e oi get_depth x y"
      unfolding a using xy by (rule filter_align_calls)
    then show ?thesis
      unfolding eq using length_expected_transfer [of U di e oi get_depth x y] by simp
  next
    case False
    have "d \<noteq> a" if "(d, c) \<in> set (align_calls U di e oi get_depth)" for d c
      using that False by (elim align_calls_member) (auto dest: expected_transfer_fst)
    then have "filter (\<lambda>(d, c). d = a) (align_calls U di e oi get_depth) = []"
      by (auto simp: filter_empty_conv)
    then show ?thesis
      unfolding eq by simp
  qed
qed

lemma byte_of_pixel:
  fixes N :: int
  assumes "0 \<le> k" "k < N"
  shows "N * d \<le> N * d0 + k \<and> N * d0 + k < N * d + N \<longleftrightarrow> d = d0"
proof
  assume a: "N * d \<le> N * d0 + k \<and> N * d0 + k < N * d + N"
  have N: "0 < N" using assms by linarith
  from a assms have "N * d < N * (d0 + 1)" by (simp add: algebra_simps)
  then have "d < d0 + 1" using N by (simp add: mult_less_cancel_left_pos)
  moreover from a assms have "N * d0 < N * (d + 1)" by (simp add: algebra_simps)
  then have "d0 < d + 1" using N by (simp add: mult_less_cancel_left_pos)
  ultimately show "d = d0" by simp
next
  assume "d = d0"
  with assms show "N * d \<le> N * d0 + k \<and> N * d0 + k < N * d + N" by simp
qed

lemma assign_bytes_at:
  assumes "0 \<le> k" "k < int N"
  shows "assign_bytes N out d inp c (int N * d0 + k)
     = (if d = d0 then inp (int N * c + k) else out (int N * d0 + k))"
  using byte_of_pixel [OF assms, of d d0] by (auto simp: assign_bytes_def)

lemma foldl_assign_bytes:
  assumes "0 \<le> k" "k < int N"
  shows "foldl (\<lambda>out (d, c). assign_bytes N out d inp c) out0 calls (int N * d0 + k)
     = (case filter (\<lambda>(d, c). d = d0) calls of
          [] \<Rightarrow> out0 (int N * d0 + k)
        | cs \<Rightarrow> inp (int N * snd (last cs) + k))"
  by (induction calls rule: rev_induct)
    (auto simp: assign_bytes_at [OF assms] split: list.splits prod.splits)

text \<open>
  Claim C7, amended. In \<^verbatim>\<open>align_color_to_depth_bytes\<close> with pixel width \<open>N\<close>, every write is
  an assignment \<^verbatim>\<open>out[depth_index] = in_other[other_index]\<close> of \<open>N\<close> bytes, and no depth
  index is written twice. A depth pixel \<open>(x, y)\<close> is written exactly once when its depth is
  not zero and its rounded projection lies inside the other image, and is not written
  otherwise: its \<open>N\<close> bytes are then those of the other pixel, or else the bytes the
  output held before the call.
\<close>

theorem align_color_to_depth_bytes_writes:
  "align_color_to_depth_bytes N U out0 depth_pixels depth_scale di e ci inp
     = foldl (\<lambda>out (d, c). assign_bytes N out d inp c) out0
         (align_calls U di e ci (\<lambda>i. times_u16 U (depth_pixels i) depth_scale))
   \<and> distinct (map fst (align_calls U di e ci (\<lambda>i. times_u16 U (depth_pixels i) depth_scale)))
   \<and> (0 \<le> x \<and> x < intrin_width di \<and> 0 \<le> y \<and> y < intrin_height di \<longrightarrow>
        filter (\<lambda>(d, c). d = y * intrin_width di + x)
            (align_calls U di e ci (\<lambda>i. times_u16 U (depth_pixels i) depth_scale))
          = (let depth = times_u16 U (depth_pixels (y * intrin_width di + x)) depth_scale;
                 (ox, oy) = rounded_pixel U di e ci x y depth
             in if float_to_bool U depth
                   \<and> 0 \<le> ox \<and> ox < intrin_width ci \<and> 0 \<le> oy \<and> oy < intrin_height ci
                then [(y * intrin_width di + x, oy * intrin_width ci + ox)]
                else []))
   \<and> (0 \<le> x \<and> x < intrin_width di \<and> 0 \<le> y \<and> y < intrin_height di
        \<and> 0 \<le> k \<and> k < int N \<longrightarrow>
        align_color_to_depth_bytes N U out0 depth_pixels depth_scale di e ci inp
            (int N * (y * intrin_width di + x) + k)
          = (let depth = times_u16 U (depth_pixels (y * intrin_width di + x)) depth_scale;
                 (ox, oy) = rounded_pixel U di e ci x y depth
             in if float_to_bool U depth
                   \<and> 0 \<le> ox \<and> ox < intrin_width ci \<and> 0 \<le> oy \<and> oy < intrin_height ci
                then inp (int N * (oy * intrin_width ci + ox) + k)
                else out0 (int N * (y * intrin_width di + x) + k)))"
proof (intro conjI impI)
  let ?calls = "align_calls U di e ci (\<lambda>i. times_u16 U (depth_pixels i) depth_scale)"
  show folded: "align_color_to_depth_bytes N U out0 depth_pixels depth_scale di e ci inp
     = foldl (\<lambda>out (d, c). assign_bytes N out d inp c) out0 ?calls"
    unfolding align_color_to_depth_bytes_def by (rule align_images_calls)
  show "distinct (map fst ?calls)"
    by (rule distinct_align_calls)
  {
    assume "0 \<le> x \<and> x < intrin_width di \<and> 0 \<le> y \<and> y < intrin_height di"
    then have "filter (\<lambda>(d, c). d = y * intrin_width di + x) ?calls
        = expected_transfer U di e ci (\<lambda>i. times_u16 U (depth_pixels i) depth_scale) x y"
      by (intro filter_align_calls) simp_all
    then show "filter (\<lambda>(d, c). d = y * intrin_width di + x) ?calls
          = (let depth = times_u16 U (depth_pixels (y * intrin_width di + x)) depth_scale;
                 (ox, oy) = rounded_pixel U di e ci x y depth
             in if float_to_bool U depth
                   \<and> 0 \<le> ox \<and> ox < intrin_width ci \<and> 0 \<le> oy \<and> oy < intrin_height ci
                then [(y * intrin_width di + x, oy * intrin_width ci + ox)]
                else [])"
      by (simp add: expected_transfer_def Let_def split: prod.splits)
  }
  {
    assume a: "0 \<le> x \<and> x < intrin_width di \<and> 0 \<le> y \<and> y < intrin_height di
        \<and> 0 \<le> k \<and> k < int N"
    then have f: "filter (\<lambda>(d, c). d = y * intrin_width di + x) ?calls
        = expected_transfer U di e ci (\<lambda>i. times_u16 U (depth_pixels i) depth_scale) x y"
      by (intro filter_align_calls) simp_all
    from a have k: "0 \<le> k" "k < int N" by simp_all
    show "align_color_to_depth_bytes N U out0 depth_pixels depth_scale di e ci inp
            (int N * (y * intrin_width di + x) + k)
          = (let depth = times_u16 U (depth_pixels (y * intrin_width di + x)) depth_scale;
                 (ox, oy) = rounded_pixel U di e ci x y depth
             in if float_to_bool U depth
                   \<and> 0 \<le> ox \<and> ox < intrin_width ci \<and> 0 \<le> oy \<and> oy < intrin_height ci
                then inp (int N * (oy * intrin_width ci + ox) + k)
                else out0 (int N * (y * intrin_width di + x) + k))"
      unfolding folded foldl_assign_bytes [OF k] f
      by (simp add: expected_transfer_def Let_def split: prod.splits)
  }
qed

theorem align_color_to_depth_bytes_writes_witness:
  "align_color_to_depth_bytes 1 (toy_rsutil (\<lambda>x y. (x, y))) (\<lambda>a. 0x55)
       (\<lambda>i. if i = 0 then 0 else 1000) 1 (image_size 2 1) () (image_size 2 1) (\<lambda>a. 0xAA) 1 = 0xAA
   \<and> align_color_to_depth_bytes 1 (toy_rsutil (\<lambda>x y. (x, y))) (\<lambda>a. 0x55)
       (\<lambda>i. if i = 0 then 0 else 1000) 1 (image_size 2 1) () (image_size 2 1) (\<lambda>a. 0xAA) 0 = 0x55"
  using align_color_to_depth_bytes_writes [of 1 "toy_rsutil (\<lambda>x y. (x, y))" "\<lambda>a. 0x55"
      "\<lambda>i. if i = 0 then 0 else 1000" 1 "image_size 2 1" "()" "image_size 2 1" "\<lambda>a. 0xAA"
      1 0 0, THEN conjunct2, THEN conjunct2, THEN conjunct2]
    align_color_to_depth_bytes_writes [of 1 "toy_rsutil (\<lambda>x y. (x, y))" "\<lambda>a. 0x55"
      "\<lambda>i. if i = 0 then 0 else 1000" 1 "image_size 2 1" "()" "image_size 2 1" "\<lambda>a. 0xAA"
      0 0 0, THEN conjunct2, THEN conjunct2, THEN conjunct2]
  by (simp add: toy_rsutil_def image_size_def)

text \<open>
  Claim C7, refuted as stated: a depth pixel of value zero is not written at all. On a
  depth image of one pixel with raw depth 0 the callback is never called, and the output
  byte keeps the value it had.
\<close>

theorem zero_depth_not_written_counterexample:
  "align_calls (toy_rsutil (\<lambda>x y. (x, y))) (image_size 1 1) () (image_size 1 1)
       (\<lambda>i. times_u16 (toy_rsutil (\<lambda>x y. (x, y))) 0 1) = []
   \<and> align_color_to_depth_bytes 1 (toy_rsutil (\<lambda>x y. (x, y))) (\<lambda>a. 0x55) (\<lambda>i. 0) 1
       (image_size 1 1) () (image_size 1 1) (\<lambda>a. 0xAA) 0 = 0x55"
  by (simp add: align_color_to_depth_bytes_def align_images_calls align_calls_rows
      expected_transfer_def toy_rsutil_def image_size_def upt_small)

subsection \<open>Formats of alignment and rectification\<close>

lemma rectify_image_pixels_not_unsupported:
  "rectify_image_pixels table unrect \<noteq> Inl UnsupportedFormat"
  by (induction table) (auto split: sum.splits)

lemma pixel_width_cases:
  "pixel_width fmt = None \<longleftrightarrow> fmt = RS_FORMAT_YUYV"
  by (cases fmt) (simp_all add: pixel_width_def)

text \<open>
  Claim C8. \<^verbatim>\<open>align_color_to_depth\<close> and \<^verbatim>\<open>rectify_image\<close> fail with \<open>UnsupportedFormat\<close>
  on \<open>YUYV\<close>, which transfers no pixel, and on no other format; on the formats of pixel
  width 1 (Y8), 2 (Y16, Z16), 3 (RGB8, BGR8) and 4 (RGBA8, BGRA8) they are the byte-generic
  routine at that width.
\<close>

theorem yuyv_rejected:
  "align_color_to_depth U out0 depth_pixels depth_scale di e ci inp RS_FORMAT_YUYV
     = Inl UnsupportedFormat
   \<and> rectify_image table unrect RS_FORMAT_YUYV = Inl UnsupportedFormat
   \<and> align_color_to_depth U out0 depth_pixels depth_scale di e ci inp fmt
     = (case pixel_width fmt of
          None \<Rightarrow> Inl UnsupportedFormat
        | Some N \<Rightarrow> Inr (align_color_to_depth_bytes N U out0 depth_pixels depth_scale di e ci inp))
   \<and> rectify_image table unrect fmt
     = (case pixel_width fmt of
          None \<Rightarrow> Inl UnsupportedFormat
        | Some N \<Rightarrow> rectify_image_pixels table (bytes_pixels N unrect))
   \<and> (pixel_width fmt = None \<longleftrightarrow> fmt = RS_FORMAT_YUYV)
   \<and> (pixel_width fmt \<in> {None, Some 1, Some 2, Some 3, Some 4})
   \<and> (align_color_to_depth U out0 depth_pixels depth_scale di e ci inp fmt = Inl UnsupportedFormat
        \<longleftrightarrow> fmt = RS_FORMAT_YUYV)
   \<and> (rectify_image table unrect fmt = Inl UnsupportedFormat \<longleftrightarrow> fmt = RS_FORMAT_YUYV)"
  using rectify_image_pixels_not_unsupported [of table]
  by (cases fmt) (simp_all add: align_color_to_depth_def rectify_image_def pixel_width_def)

theorem yuyv_rejected_witness:
  "align_color_to_depth (toy_rsutil (\<lambda>x y. (x, y))) (\<lambda>a. 0) (\<lambda>i. 1000) 1 (image_size 2 2) ()
       (image_size 2 2) (\<lambda>a. 0xAA) RS_FORMAT_YUYV = Inl UnsupportedFormat
   \<and> rectify_image [0, 0] [1, 2, 3, 4] RS_FORMAT_YUYV = Inl UnsupportedFormat
   \<and> rectify_image [1, 0] [1, 2, 3, 4] RS_FORMAT_Y16 = Inr [[3, 4], [1, 2]]"
  using yuyv_rejected [of "toy_rsutil (\<lambda>x y. (x, y))" "\<lambda>a. 0" "\<lambda>i. 1000" 1 "image_size 2 2" "()"
      "image_size 2 2" "\<lambda>a. 0xAA" "[0, 0]" "[1, 2, 3, 4]" RS_FORMAT_YUYV]
    yuyv_rejected [of "toy_rsutil (\<lambda>x y. (x, y))" "\<lambda>a. 0" "\<lambda>i. 1000" 1 "image_size 2 2" "()"
      "image_size 2 2" "\<lambda>a. 0xAA" "[1, 0]" "[1, 2, 3, 4]" RS_FORMAT_Y16]
  by (simp add: pixel_width_def bytes_pixels_def upt_small)

subsection \<open>The rectification table\<close>










end
